theory Spec2Isabelle
  imports Complex_Main "HOL-Library.AList" "HOL-Library.Option_ord" "HOL-Library.Multiset"
begin

section \<open>Python values\<close>

text \<open>
  The values that \<^verbatim>\<open>res.json()\<close> produces and that the functions of
  \<^verbatim>\<open>filter_extractor.py\<close> pass around: \<^verbatim>\<open>None\<close>, booleans, integers,
  floats, strings, lists and dicts with string keys. A dict is an association list in
  insertion order (\<^verbatim>\<open>row.items()\<close> iterates in that order); a well-formed dict
  has distinct keys. A string is a list of characters with code points below 256.

  A float is NaN or a number. The numbers are the values of a type \<open>'f\<close>, the
  infinities among them, and \<^verbatim>\<open>-0.0\<close> and \<^verbatim>\<open>0.0\<close> are one number, as
  \<^verbatim>\<open>==\<close> and \<^verbatim>\<open>hash\<close> have them. Where the code compares floats, \<open>'f\<close> is
  linearly ordered. NaN is less than nothing, greater than nothing and equal to
  nothing, itself included.
\<close>

datatype 'f pyfloat = NaN | Num 'f

text \<open>\<^verbatim>\<open>x < y\<close> and \<^verbatim>\<open>x == y\<close> on floats.\<close>

fun float_lt :: "('f::linorder) pyfloat \<Rightarrow> 'f pyfloat \<Rightarrow> bool" where
  "float_lt (Num x) (Num y) = (x < y)"
| "float_lt x y = False"

fun float_eq :: "'f pyfloat \<Rightarrow> 'f pyfloat \<Rightarrow> bool" where
  "float_eq (Num x) (Num y) = (x = y)"
| "float_eq x y = False"

text \<open>
  A float object, as \<^verbatim>\<open>float(s)\<close> creates one with every call: its identity and its
  value. Two objects are the same object when their identities are equal.
\<close>

type_synonym 'f float_obj = "nat \<times> 'f pyfloat"

datatype 'f pyval =
    PNone
  | PBool bool
  | PInt int
  | PFloat "'f pyfloat"
  | PStr string
  | PList "'f pyval list"
  | PDict "(string \<times> 'f pyval) list"

text \<open>
  Three builtins of Python depend on floating point arithmetic, on the formatting of
  objects and on the sorting algorithm; they are parameters of the model.
  \<open>py_float py s\<close> is the value of \<^verbatim>\<open>float(s)\<close> for a string \<open>s\<close>, \<open>None\<close> when it
  raises \<^verbatim>\<open>ValueError\<close>. \<open>py_repr py v\<close> is \<^verbatim>\<open>str(v)\<close> for a float, a list or
  a dict. \<open>py_sort_nan py objs\<close> is the order in which \<^verbatim>\<open>list.sort()\<close> leaves a
  list of floats with a NaN among them that is not an ascending run already (see
  \<open>list_sort\<close> below).
\<close>

record 'f builtins =
  py_float :: "string \<Rightarrow> 'f pyfloat option"
  py_repr :: "'f pyval \<Rightarrow> string"
  py_sort_nan :: "'f float_obj list \<Rightarrow> 'f float_obj list"

subsection \<open>\<^verbatim>\<open>str\<close>, truth values, \<^verbatim>\<open>len\<close>\<close>

fun digits :: "nat \<Rightarrow> string" where
  "digits n =
     (if n < 10 then [''0123456789'' ! n]
      else digits (n div 10) @ [''0123456789'' ! (n mod 10)])"

definition str_int :: "int \<Rightarrow> string" where
  "str_int i = (if i < 0 then CHR ''-'' # digits (nat (- i)) else digits (nat i))"

fun str :: "'f builtins \<Rightarrow> 'f pyval \<Rightarrow> string" where
  "str py PNone = ''None''"
| "str py (PBool b) = (if b then ''True'' else ''False'')"
| "str py (PInt i) = str_int i"
| "str py (PStr s) = s"
| "str py v = py_repr py v"

text \<open>The truth value of an object, as \<^verbatim>\<open>not x\<close> and \<^verbatim>\<open>if x\<close> test it.\<close>

fun truthy :: "('f::zero) pyval \<Rightarrow> bool" where
  "truthy PNone = False"
| "truthy (PBool b) = b"
| "truthy (PInt i) = (i \<noteq> 0)"
| "truthy (PFloat x) = (x \<noteq> Num 0)"
| "truthy (PStr s) = (s \<noteq> [])"
| "truthy (PList xs) = (xs \<noteq> [])"
| "truthy (PDict kvs) = (kvs \<noteq> [])"

text \<open>\<^verbatim>\<open>len(x)\<close>; \<open>None\<close> stands for the \<^verbatim>\<open>TypeError\<close> of an object without length.\<close>

fun py_len :: "'f pyval \<Rightarrow> nat option" where
  "py_len (PStr s) = Some (length s)"
| "py_len (PList xs) = Some (length xs)"
| "py_len (PDict kvs) = Some (length kvs)"
| "py_len v = None"

subsection \<open>String methods\<close>

text \<open>\<^verbatim>\<open>str.isspace\<close> on one character, for code points below 256.\<close>

definition is_space :: "char \<Rightarrow> bool" where
  "is_space c =
     (let n = (of_char c :: nat)
      in (9 \<le> n \<and> n \<le> 13) \<or> (28 \<le> n \<and> n \<le> 32) \<or> n = 133 \<or> n = 160)"

definition strip :: "string \<Rightarrow> string" where
  "strip s = rev (dropWhile is_space (rev (dropWhile is_space s)))"

text \<open>\<^verbatim>\<open>str.lower\<close> on one character: ASCII and Latin-1 capital letters.\<close>

definition lower_char :: "char \<Rightarrow> char" where
  "lower_char c =
     (let n = (of_char c :: nat)
      in if (65 \<le> n \<and> n \<le> 90) \<or> (192 \<le> n \<and> n \<le> 222 \<and> n \<noteq> 215)
         then char_of (n + 32) else c)"

definition lower :: "string \<Rightarrow> string" where
  "lower s = map lower_char s"

text \<open>\<^verbatim>\<open>xs in ys\<close> for two strings: \<open>xs\<close> is a contiguous part of \<open>ys\<close>.\<close>

fun starts_with :: "string \<Rightarrow> string \<Rightarrow> bool" where
  "starts_with [] ys = True"
| "starts_with (x # xs) [] = False"
| "starts_with (x # xs) (y # ys) = (x = y \<and> starts_with xs ys)"

fun contains :: "string \<Rightarrow> string \<Rightarrow> bool" where
  "contains xs [] = (xs = [])"
| "contains xs (y # ys) = (starts_with xs (y # ys) \<or> contains xs ys)"

section \<open>The sample value extractor\<close>

text \<open>
  \<^verbatim>\<open>is_numeric\<close>: \<^verbatim>\<open>None\<close> is not numeric; any other value is numeric when
  \<^verbatim>\<open>float(str(value))\<close> does not raise.
\<close>

definition is_numeric :: "'f builtins \<Rightarrow> 'f pyval \<Rightarrow> bool" where
  "is_numeric py v =
     (if v = PNone then False
      else (case py_float py (str py v) of Some x \<Rightarrow> True | None \<Rightarrow> False))"

text \<open>
  The test \<^verbatim>\<open>row[key] is not None and str(row[key]).strip() != ""\<close> that guards
  every \<^verbatim>\<open>values.append\<close>.
\<close>

definition nonblank :: "'f builtins \<Rightarrow> 'f pyval \<Rightarrow> bool" where
  "nonblank py v = (v \<noteq> PNone \<and> strip (str py v) \<noteq> [])"

definition possible_keys :: "string \<Rightarrow> string \<Rightarrow> string list" where
  "possible_keys grp fld =
     [fld, grp @ ''.'' @ fld, grp @ ''_'' @ fld, grp @ '' '' @ fld]"

text \<open>
  The loop \<^verbatim>\<open>for key in possible_keys\<close>: the value under the first candidate key
  that is in the row with a value that is not blank; \<open>None\<close> when the loop ends
  without \<^verbatim>\<open>break\<close>.
\<close>

fun first_exact :: "'f builtins \<Rightarrow> (string \<times> 'f pyval) list \<Rightarrow> string list \<Rightarrow> 'f pyval option" where
  "first_exact py row [] = None"
| "first_exact py row (k # ks) =
     (case map_of row k of
        Some v \<Rightarrow> if nonblank py v then Some v else first_exact py row ks
      | None \<Rightarrow> first_exact py row ks)"

text \<open>
  The \<^verbatim>\<open>else\<close> branch of that loop, \<^verbatim>\<open>for key, value in row.items()\<close>: the first
  value that is not blank under a key containing the field name, case-insensitively.
\<close>

fun first_containing :: "'f builtins \<Rightarrow> string \<Rightarrow> (string \<times> 'f pyval) list \<Rightarrow> 'f pyval option" where
  "first_containing py fld [] = None"
| "first_containing py fld ((k, v) # items) =
     (if contains (lower fld) (lower k) \<and> nonblank py v then Some v
      else first_containing py fld items)"

definition row_value :: "'f builtins \<Rightarrow> string \<Rightarrow> string \<Rightarrow> (string \<times> 'f pyval) list \<Rightarrow> 'f pyval option" where
  "row_value py grp fld row =
     (case first_exact py row (possible_keys grp fld) of
        Some v \<Rightarrow> Some v
      | None \<Rightarrow> first_containing py fld row)"

text \<open>The loop \<^verbatim>\<open>for row in data_rows\<close>; a row that is not a dict is passed over.\<close>

fun collect_values :: "'f builtins \<Rightarrow> string \<Rightarrow> string \<Rightarrow> 'f pyval list \<Rightarrow> 'f pyval list" where
  "collect_values py grp fld [] = []"
| "collect_values py grp fld (PDict row # rows) =
     (case row_value py grp fld row of
        Some v \<Rightarrow> v # collect_values py grp fld rows
      | None \<Rightarrow> collect_values py grp fld rows)"
| "collect_values py grp fld (r # rows) = collect_values py grp fld rows"

text \<open>
  A dict whose keys are float objects, in insertion order. A key of the dict matches a
  key looked up when the two are the same object or equal as floats
  (\<^verbatim>\<open>k1 is k2 or k1 == k2\<close>; equal floats have equal hashes). So a NaN object
  matches itself only. \<^verbatim>\<open>d[k] = v\<close> replaces the value under the matching key and
  appends a new item when there is none; \<^verbatim>\<open>d[k]\<close> is the value under the matching
  key, \<open>None\<close> for the \<^verbatim>\<open>KeyError\<close> when there is none.
\<close>

definition same_key :: "'f float_obj \<Rightarrow> 'f float_obj \<Rightarrow> bool" where
  "same_key k1 k2 = (k1 = k2 \<or> float_eq (snd k1) (snd k2))"

fun setitem :: "('f float_obj \<times> 'v) list \<Rightarrow> 'f float_obj \<Rightarrow> 'v \<Rightarrow> ('f float_obj \<times> 'v) list" where
  "setitem [] k v = [(k, v)]"
| "setitem ((k', v') # items) k v =
     (if same_key k' k then (k', v) # items else (k', v') # setitem items k v)"

fun getitem :: "('f float_obj \<times> 'v) list \<Rightarrow> 'f float_obj \<Rightarrow> 'v option" where
  "getitem [] k = None"
| "getitem ((k', v') # items) k = (if same_key k' k then Some v' else getitem items k)"

text \<open>
  The loop \<^verbatim>\<open>for val in values\<close> that fills \<^verbatim>\<open>numeric_values\<close> and the dict
  \<^verbatim>\<open>original_to_numeric\<close>. Each \<^verbatim>\<open>float(str(val))\<close> is a new object; its
  identity is the number of objects created before it. The assignment
  \<^verbatim>\<open>original_to_numeric[numeric_val] = val\<close> replaces what a matching key held
  before.
\<close>

fun numeric_scan ::
  "'f builtins \<Rightarrow> 'f pyval list \<Rightarrow> 'f float_obj list \<times> ('f float_obj \<times> 'f pyval) list
     \<Rightarrow> 'f float_obj list \<times> ('f float_obj \<times> 'f pyval) list" where
  "numeric_scan py [] acc = acc"
| "numeric_scan py (val # vals) (numeric_values, original_to_numeric) =
     (if is_numeric py val then
        (case py_float py (str py val) of
           Some x \<Rightarrow>
             (let numeric_val = (length numeric_values, x)
              in numeric_scan py vals
                   (numeric_values @ [numeric_val], setitem original_to_numeric numeric_val val))
         | None \<Rightarrow> numeric_scan py vals (numeric_values, original_to_numeric))
      else numeric_scan py vals (numeric_values, original_to_numeric))"

text \<open>
  \<^verbatim>\<open>numeric_values.sort()\<close>. The method compares with \<^verbatim>\<open><\<close> only and is stable.
  On floats without a NaN it leaves the list in ascending order, equal numbers in the
  order they had. A list in which no element is less than the one before it is one
  ascending run for the method, which leaves it as it is; with a NaN that may be a
  list that is not in order. For every other list with a NaN the method leaves some
  permutation of the list, the one the parameter \<open>py_sort_nan\<close> gives; a value of
  the parameter that is no permutation of its argument is not used.
\<close>

fun number :: "'f pyfloat \<Rightarrow> 'f option" where
  "number NaN = None"
| "number (Num x) = Some x"

fun ascending_run :: "('f::linorder) float_obj list \<Rightarrow> bool" where
  "ascending_run (a # b # objs) = (\<not> float_lt (snd b) (snd a) \<and> ascending_run (b # objs))"
| "ascending_run objs = True"

definition list_sort :: "('f::linorder) builtins \<Rightarrow> 'f float_obj list \<Rightarrow> 'f float_obj list" where
  "list_sort py objs =
     (if list_all (\<lambda>obj. snd obj \<noteq> NaN) objs then sort_key (\<lambda>obj. number (snd obj)) objs
      else if ascending_run objs then objs
      else if mset (py_sort_nan py objs) = mset objs then py_sort_nan py objs
      else objs)"

text \<open>
  The slice \<^verbatim>\<open>numeric_values[start_idx:end_idx]\<close> of the sorted list and the index
  \<^verbatim>\<open>len(middle_range) // 2\<close> into it.
\<close>

definition middle_range :: "'a list \<Rightarrow> 'a list" where
  "middle_range sorted_values =
     (let start_idx = length sorted_values div 4;
          end_idx = 3 * length sorted_values div 4
      in drop start_idx (take end_idx sorted_values))"

definition middle_idx :: "'a list \<Rightarrow> nat" where
  "middle_idx sorted_values = length (middle_range sorted_values) div 2"

text \<open>
  The body of \<^verbatim>\<open>extract_sample_value\<close> once \<^verbatim>\<open>data_rows\<close> is a list that is
  not empty. The index \<open>middle_idx\<close> is in range because the slice is not empty. A
  key missing from \<^verbatim>\<open>original_to_numeric\<close> would raise \<^verbatim>\<open>KeyError\<close>, which the
  function's \<^verbatim>\<open>except Exception\<close> turns into \<^verbatim>\<open>None\<close>.
\<close>

definition sample_of_rows ::
  "('f::linorder) builtins \<Rightarrow> string \<Rightarrow> string \<Rightarrow> bool \<Rightarrow> 'f pyval list \<Rightarrow> 'f pyval" where
  "sample_of_rows py grp fld for_comparison data_rows =
     (let values = collect_values py grp fld data_rows
      in if values = [] then PNone
         else if for_comparison \<and> length values > 1 then
           (let (numeric_values, original_to_numeric) = numeric_scan py values ([], [])
            in if length numeric_values > 1 then
                 (let sorted_values = list_sort py numeric_values
                  in if middle_range sorted_values \<noteq> [] then
                       (let selected_numeric =
                              middle_range sorted_values ! middle_idx sorted_values
                        in case getitem original_to_numeric selected_numeric of
                             Some selected_value \<Rightarrow> selected_value
                           | None \<Rightarrow> PNone)
                     else hd values)
               else hd values)
         else hd values)"

text \<open>
  \<^verbatim>\<open>extract_sample_value(response_data, group, field, for_comparison)\<close>.
  \<open>response_data\<close> is the dict that \<^verbatim>\<open>process_field\<close> builds. The test
  \<^verbatim>\<open>'data' in response_data['response']\<close> is a key test when the body is a dict.
  For a body that is a list or a string it is a membership test, and when that
  succeeds the subscript \<^verbatim>\<open>['data']\<close> raises \<^verbatim>\<open>TypeError\<close>; for every other
  body the test itself raises \<^verbatim>\<open>TypeError\<close>. The function catches every exception
  and returns \<^verbatim>\<open>None\<close>, which is also what it returns when the test fails.
\<close>

definition extract_sample_value ::
  "('f::linorder) builtins \<Rightarrow> (string \<times> 'f pyval) list \<Rightarrow> string \<Rightarrow> string \<Rightarrow> bool \<Rightarrow> 'f pyval" where
  "extract_sample_value py response_data grp fld for_comparison =
     (case map_of response_data ''response'' of
        None \<Rightarrow> PNone
      | Some (PDict body) \<Rightarrow>
          (case map_of body ''data'' of
             Some (PList data_rows) \<Rightarrow>
               if length data_rows > 0
               then sample_of_rows py grp fld for_comparison data_rows
               else PNone
           | _ \<Rightarrow> PNone)
      | Some _ \<Rightarrow> PNone)"

section \<open>The transport\<close>

text \<open>
  Calls to \<^verbatim>\<open>logging\<close> are not part of the model: they influence neither a
  value nor the control flow. Everything else the program does to the outside is an
  event of a trace: a request sent with \<^verbatim>\<open>session.post\<close>, a \<^verbatim>\<open>time.sleep\<close>,
  \<^verbatim>\<open>os.makedirs\<close>, and a JSON document written to a file. A path is the list of
  the components given to \<^verbatim>\<open>os.path.join\<close>. The delay given to \<^verbatim>\<open>time.sleep\<close>
  is taken as not negative: for a negative one \<^verbatim>\<open>time.sleep\<close> raises
  \<^verbatim>\<open>ValueError\<close>, which is not part of the model.
\<close>

datatype exn = RequestException string | AttributeError | TypeError

record 'f response =
  status_code :: int
  json_body :: "'f pyval option"
  body_text :: string

text \<open>
  \<^verbatim>\<open>Response.ok\<close> of the requests library: true unless \<^verbatim>\<open>raise_for_status()\<close>
  raises, which it does for \<^verbatim>\<open>400 <= status_code < 600\<close>.
\<close>

definition ok :: "'f response \<Rightarrow> bool" where
  "ok res = (\<not> (400 \<le> status_code res \<and> status_code res < 600))"

text \<open>\<open>json_body res = None\<close>: \<^verbatim>\<open>res.json()\<close> raises.\<close>

definition safe_json :: "'f response \<Rightarrow> 'f pyval" where
  "safe_json res =
     (case json_body res of
        Some j \<Rightarrow> j
      | None \<Rightarrow> PDict [(''_raw_text'', PStr (take 4000 (body_text res))),
                        (''_status_code'', PInt (status_code res))])"

datatype 'f payload = Json "(string \<times> 'f pyval) list" | Form "(string \<times> 'f pyval) list"

record 'f request =
  req_url :: string
  req_headers :: "(string \<times> string) list"
  req_payload :: "'f payload"
  req_timeout :: int

datatype 'f event =
    Post "'f request"
  | Sleep real
  | MakeDirs "string list"
  | Write "string list" "'f pyval"

text \<open>
  What \<^verbatim>\<open>session.post\<close> does with a request: it raises a \<^verbatim>\<open>RequestException\<close>
  or returns a response. The remote service is a function of the number of requests
  sent before and of the request.
\<close>

datatype 'f outcome = Raises string | Returns "'f response"

type_synonym 'f network = "nat \<Rightarrow> 'f request \<Rightarrow> 'f outcome"

text \<open>The state: the fields of the \<^verbatim>\<open>TokenManager\<close> and the trace so far.\<close>

record 'f state =
  tm_email :: string
  tm_password :: string
  tm_token :: "'f pyval"
  trace :: "'f event list"

fun is_post :: "'f event \<Rightarrow> bool" where
  "is_post (Post req) = True"
| "is_post e = False"

definition posts :: "'f event list \<Rightarrow> nat" where
  "posts tr = length (filter is_post tr)"

definition emit :: "'f event \<Rightarrow> 'f state \<Rightarrow> 'f state" where
  "emit e s = s\<lparr>trace := trace s @ [e]\<rparr>"

definition session_post :: "'f network \<Rightarrow> 'f request \<Rightarrow> 'f state \<Rightarrow> 'f outcome \<times> 'f state" where
  "session_post net req s = (net (posts (trace s)) req, emit (Post req) s)"

subsection \<open>\<^verbatim>\<open>post_with_retry\<close>\<close>

text \<open>
  The loop \<^verbatim>\<open>for attempt in range(1, retries + 1)\<close>, over the attempts that remain.
  When the range is exhausted without a \<^verbatim>\<open>return\<close> or a \<^verbatim>\<open>raise\<close> the function
  returns \<^verbatim>\<open>None\<close>.
\<close>

fun retry_loop ::
  "'f network \<Rightarrow> 'f request \<Rightarrow> int \<Rightarrow> int list \<Rightarrow> int \<Rightarrow> 'f state
     \<Rightarrow> (exn + 'f response option) \<times> 'f state" where
  "retry_loop net req retries [] delay s = (Inr None, s)"
| "retry_loop net req retries (attempt # rest) delay s =
     (case session_post net req s of
        (Returns res, s1) \<Rightarrow> (Inr (Some res), s1)
      | (Raises e, s1) \<Rightarrow>
          if attempt = retries then (Inl (RequestException e), s1)
          else retry_loop net req retries rest (delay * 2) (emit (Sleep (of_int delay)) s1))"

definition form_request ::
  "string \<Rightarrow> (string \<times> string) list \<Rightarrow> (string \<times> 'f pyval) list \<Rightarrow> int \<Rightarrow> 'f request" where
  "form_request u hs d t = \<lparr>req_url = u, req_headers = hs, req_payload = Form d, req_timeout = t\<rparr>"

definition post_with_retry ::
  "'f network \<Rightarrow> string \<Rightarrow> (string \<times> string) list \<Rightarrow> (string \<times> 'f pyval) list \<Rightarrow> int \<Rightarrow> int
     \<Rightarrow> 'f state \<Rightarrow> (exn + 'f response option) \<times> 'f state" where
  "post_with_retry net u hs d retries t s =
     retry_loop net (form_request u hs d t) retries [1..retries] 1 s"

section \<open>Token manager and report requests\<close>

definition BASE_URL :: string where
  "BASE_URL = ''https://unifymedicraft.net/laravel/api''"

definition REPORT_URL :: string where
  "REPORT_URL = BASE_URL @ ''/reports/paymentAdHocReport''"

definition FILTERS :: "string list" where
  "FILTERS = [''equal'', ''not_equal'', ''greater'', ''less'', ''like'', ''in'']"

definition login_request :: "string \<Rightarrow> string \<Rightarrow> int \<Rightarrow> 'f request" where
  "login_request email password t =
     \<lparr>req_url = BASE_URL @ ''/login'',
      req_headers = [(''Accept'', ''application/json''), (''Content-Type'', ''application/json'')],
      req_payload = Json [(''email'', PStr email), (''password'', PStr password)],
      req_timeout = t\<rparr>"

text \<open>
  The lines \<^verbatim>\<open>token = None\<close>,
  \<^verbatim>\<open>if isinstance(body, dict): token = body.get("data", {}).get("access_token")\<close>.
  When the body is a dict whose \<^verbatim>\<open>data\<close> is not a dict, the second
  \<^verbatim>\<open>.get\<close> raises \<^verbatim>\<open>AttributeError\<close>.
\<close>

definition token_of_body :: "'f pyval \<Rightarrow> exn + 'f pyval" where
  "token_of_body body =
     (case body of
        PDict b \<Rightarrow>
          (case (case map_of b ''data'' of Some d \<Rightarrow> d | None \<Rightarrow> PDict []) of
             PDict d \<Rightarrow> Inr (case map_of d ''access_token'' of Some t \<Rightarrow> t | None \<Rightarrow> PNone)
           | _ \<Rightarrow> Inl AttributeError)
      | _ \<Rightarrow> Inr PNone)"

text \<open>
  \<^verbatim>\<open>TokenManager.login\<close>. The result \<open>Inr PNone\<close> is \<^verbatim>\<open>return None\<close>. After
  \<^verbatim>\<open>self.token = token\<close> the argument \<^verbatim>\<open>len(token)\<close> of the last logging call
  is evaluated, and raises \<^verbatim>\<open>TypeError\<close> for a token without length.
\<close>

definition login :: "('f::zero) network \<Rightarrow> int \<Rightarrow> 'f state \<Rightarrow> (exn + 'f pyval) \<times> 'f state" where
  "login net t s =
     (case session_post net (login_request (tm_email s) (tm_password s) t) s of
        (Raises e, s1) \<Rightarrow> (Inr PNone, s1)
      | (Returns res, s1) \<Rightarrow>
          if \<not> ok res then (Inr PNone, s1)
          else
            (case token_of_body (safe_json res) of
               Inl e \<Rightarrow> (Inl e, s1)
             | Inr token \<Rightarrow>
                 if \<not> truthy token then (Inr PNone, s1)
                 else
                   (let s2 = s1\<lparr>tm_token := token\<rparr>
                    in case py_len token of
                         None \<Rightarrow> (Inl TypeError, s2)
                       | Some n \<Rightarrow> (Inr token, s2))))"

text \<open>\<^verbatim>\<open>TokenManager.get\<close> and \<^verbatim>\<open>TokenManager.refresh\<close>; both log in with the default timeout 10.\<close>

definition get :: "('f::zero) network \<Rightarrow> 'f state \<Rightarrow> (exn + 'f pyval) \<times> 'f state" where
  "get net s = (if \<not> truthy (tm_token s) then login net 10 s else (Inr (tm_token s), s))"

definition refresh :: "('f::zero) network \<Rightarrow> 'f state \<Rightarrow> (exn + 'f pyval) \<times> 'f state" where
  "refresh net s = login net 10 (s\<lparr>tm_token := PNone\<rparr>)"

subsection \<open>\<^verbatim>\<open>fetch_field_data\<close>\<close>

text \<open>
  A dict display and \<^verbatim>\<open>dict.update\<close>: the pairs are stored from left to right, a
  key that is already there keeps its place and takes the new value.
\<close>

definition dict_update :: "(string \<times> 'v) list \<Rightarrow> (string \<times> 'v) list \<Rightarrow> (string \<times> 'v) list" where
  "dict_update d kvs = foldl (\<lambda>acc (k, v). AList.update k v acc) d kvs"

definition report_headers :: "'f builtins \<Rightarrow> 'f pyval \<Rightarrow> (string \<times> string) list" where
  "report_headers py token =
     dict_update []
       [(''Authorization'', ''Bearer '' @ str py token),
        (''Accept'', ''application/json''),
        (''Content-Type'', ''application/x-www-form-urlencoded'')]"

text \<open>
  The payload; \<^verbatim>\<open>filter_operator\<close> is an optional string, tested for truth, and
  \<^verbatim>\<open>filter_value\<close> is tested against \<^verbatim>\<open>None\<close>.
\<close>

definition report_payload ::
  "string \<Rightarrow> string \<Rightarrow> string option \<Rightarrow> 'f pyval \<Rightarrow> (string \<times> 'f pyval) list" where
  "report_payload grp fld filter_operator filter_value =
     (let payload =
            dict_update []
              [(''filterData'', PInt 100), (''show'', PInt 1), (''columns_count'', PInt 50),
               (grp @ ''['' @ fld @ '']'', PStr (grp @ '' '' @ fld))]
      in case filter_operator of
           Some operator \<Rightarrow>
             if operator \<noteq> [] \<and> filter_value \<noteq> PNone then
               dict_update payload
                 [(''filters['' @ grp @ ''][0][field]'', PStr fld),
                  (''filters['' @ grp @ ''][0][group]'', PStr grp),
                  (''filters['' @ grp @ ''][0][operator]'', PStr operator),
                  (''filters['' @ grp @ ''][0][value]'', filter_value)]
             else payload
         | None \<Rightarrow> payload)"

text \<open>
  \<^verbatim>\<open>fetch_field_data\<close>. \<open>Inr None\<close> is \<^verbatim>\<open>return None\<close>. Only a
  \<^verbatim>\<open>RequestException\<close> is caught around \<^verbatim>\<open>post_with_retry\<close>; what
  \<^verbatim>\<open>token_manager.get\<close> and \<^verbatim>\<open>token_manager.refresh\<close> raise leaves the function.
  \<^verbatim>\<open>res.status_code\<close> on \<^verbatim>\<open>None\<close> would raise \<^verbatim>\<open>AttributeError\<close>.
\<close>

definition fetch_field_data ::
  "('f::zero) network \<Rightarrow> 'f builtins \<Rightarrow> string \<Rightarrow> string \<Rightarrow> string option \<Rightarrow> 'f pyval \<Rightarrow> int
     \<Rightarrow> 'f state \<Rightarrow> (exn + 'f response option) \<times> 'f state" where
  "fetch_field_data net py grp fld filter_operator filter_value t s =
     (case get net s of
        (Inl e, s1) \<Rightarrow> (Inl e, s1)
      | (Inr token, s1) \<Rightarrow>
          if \<not> truthy token then (Inr None, s1)
          else
            (let headers = report_headers py token;
                 payload = report_payload grp fld filter_operator filter_value
             in case post_with_retry net REPORT_URL headers payload 2 t s1 of
                  (Inl (RequestException e), s2) \<Rightarrow> (Inr None, s2)
                | (Inl e, s2) \<Rightarrow> (Inl e, s2)
                | (Inr None, s2) \<Rightarrow> (Inl AttributeError, s2)
                | (Inr (Some res), s2) \<Rightarrow>
                    if status_code res = 401 then
                      (case refresh net s2 of
                         (Inl e, s3) \<Rightarrow> (Inl e, s3)
                       | (Inr new_token, s3) \<Rightarrow>
                           if \<not> truthy new_token then (Inr (Some res), s3)
                           else
                             (let headers' =
                                    AList.update ''Authorization''
                                      (''Bearer '' @ str py new_token) headers
                              in case post_with_retry net REPORT_URL headers' payload 1 t s3 of
                                   (Inl (RequestException e), s4) \<Rightarrow> (Inr None, s4)
                                 | (Inl e, s4) \<Rightarrow> (Inl e, s4)
                                 | (Inr res', s4) \<Rightarrow> (Inr res', s4)))
                    else (Inr (Some res), s2)))"

section \<open>The field processor\<close>

definition get_applicable_filters :: "'f builtins \<Rightarrow> 'f pyval \<Rightarrow> string list" where
  "get_applicable_filters py sample_value =
     (if sample_value = PNone then FILTERS
      else if is_numeric py sample_value then FILTERS
      else filter (\<lambda>f. f \<notin> set [''greater'', ''less'']) FILTERS)"

text \<open>
  The loop \<^verbatim>\<open>for filter_op in applicable_filters\<close> of \<^verbatim>\<open>process_field\<close>. An
  exception that leaves \<^verbatim>\<open>fetch_field_data\<close> leaves the loop and the function.
\<close>

fun apply_filters ::
  "('f::{linorder,zero}) network \<Rightarrow> 'f builtins \<Rightarrow> string \<Rightarrow> string \<Rightarrow> string \<Rightarrow> real
     \<Rightarrow> 'f pyval \<Rightarrow> 'f pyval \<Rightarrow> string list \<Rightarrow> 'f state \<Rightarrow> (exn + unit) \<times> 'f state" where
  "apply_filters net py grp fld output_dir delay sample_value comparison_value [] s = (Inr (), s)"
| "apply_filters net py grp fld output_dir delay sample_value comparison_value (filter_op # rest) s =
     (let filter_value =
            (if filter_op \<in> set [''greater'', ''less''] \<and> comparison_value \<noteq> PNone
             then comparison_value else sample_value);
          s1 = emit (Sleep delay) s;
          filter_file = [output_dir, grp, fld, filter_op @ ''.json'']
      in case fetch_field_data net py grp fld (Some filter_op) filter_value 30 s1 of
           (Inl e, s2) \<Rightarrow> (Inl e, s2)
         | (Inr None, s2) \<Rightarrow>
             apply_filters net py grp fld output_dir delay sample_value comparison_value rest
               (emit (Write filter_file
                  (PDict [(''group'', PStr grp), (''field'', PStr fld),
                          (''error'', PStr ''network_failed''), (''filter'', PStr filter_op),
                          (''filter_value'', filter_value)])) s2)
         | (Inr (Some res), s2) \<Rightarrow>
             apply_filters net py grp fld output_dir delay sample_value comparison_value rest
               (emit (Write filter_file
                  (PDict [(''group'', PStr grp), (''field'', PStr fld),
                          (''status_code'', PInt (status_code res)), (''filter'', PStr filter_op),
                          (''filter_value'', filter_value),
                          (''response'', safe_json res)])) s2))"

text \<open>\<^verbatim>\<open>process_field\<close>; \<open>Inr ()\<close> is a return, \<open>Inl e\<close> an exception that leaves it.\<close>

definition process_field ::
  "('f::{linorder,zero}) network \<Rightarrow> 'f builtins \<Rightarrow> string \<Rightarrow> string \<Rightarrow> string \<Rightarrow> real
     \<Rightarrow> 'f state \<Rightarrow> (exn + unit) \<times> 'f state" where
  "process_field net py grp fld output_dir delay s =
     (let s0 = emit (MakeDirs [output_dir, grp, fld]) s;
          s1 = emit (Sleep delay) s0;
          raw_file = [output_dir, grp, fld, ''raw_data.json'']
      in case fetch_field_data net py grp fld None PNone 30 s1 of
           (Inl e, s2) \<Rightarrow> (Inl e, s2)
         | (Inr None, s2) \<Rightarrow>
             (Inr (),
              emit (Write raw_file
                (PDict [(''group'', PStr grp), (''field'', PStr fld),
                        (''error'', PStr ''network_failed''), (''filter'', PNone)])) s2)
         | (Inr (Some res), s2) \<Rightarrow>
             (let raw_result =
                    [(''group'', PStr grp), (''field'', PStr fld),
                     (''status_code'', PInt (status_code res)), (''filter'', PNone),
                     (''response'', safe_json res)];
                  s3 = emit (Write raw_file (PDict raw_result)) s2;
                  sample_value = extract_sample_value py raw_result grp fld False;
                  comparison_value = extract_sample_value py raw_result grp fld True
              in if sample_value = PNone then (Inr (), s3)
                 else apply_filters net py grp fld output_dir delay sample_value comparison_value
                        (get_applicable_filters py sample_value) s3))"

section \<open>Example inputs\<close>

subsection \<open>A reading of \<^verbatim>\<open>float\<close> on plain decimal literals\<close>

text \<open>
  For the examples: \<^verbatim>\<open>float(s)\<close> on the strings made of an optional sign, digits
  and at most one decimal point, between optional whitespace, as the real number they
  denote, and on \<^verbatim>\<open>nan\<close> in any case of the letters, with an optional sign, as
  NaN. Every other string is rejected here (Python accepts more: exponents,
  \<^verbatim>\<open>inf\<close>, underscores between digits).
\<close>

definition is_digit :: "char \<Rightarrow> bool" where
  "is_digit c = (let n = (of_char c :: nat) in 48 \<le> n \<and> n \<le> 57)"

definition digits_value :: "string \<Rightarrow> nat" where
  "digits_value ds = foldl (\<lambda>acc c. 10 * acc + (of_char c - 48)) 0 ds"

definition unsigned_decimal :: "string \<Rightarrow> real option" where
  "unsigned_decimal s =
     (let whole = takeWhile is_digit s; rest = dropWhile is_digit s
      in case rest of
           [] \<Rightarrow> if whole = [] then None else Some (real (digits_value whole))
         | c # fdigits \<Rightarrow>
             if c = CHR ''.'' \<and> list_all is_digit fdigits \<and> (whole \<noteq> [] \<or> fdigits \<noteq> [])
             then Some (real (digits_value whole)
                        + real (digits_value fdigits) / 10 ^ length fdigits)
             else None)"

definition signed_decimal :: "string \<Rightarrow> real option" where
  "signed_decimal s =
     (case s of
        [] \<Rightarrow> None
      | c # cs \<Rightarrow>
          if c = CHR ''-'' then map_option uminus (unsigned_decimal cs)
          else if c = CHR ''+'' then unsigned_decimal cs
          else unsigned_decimal (c # cs))"

definition is_nan_literal :: "string \<Rightarrow> bool" where
  "is_nan_literal s = (lower s \<in> {''nan'', ''+nan'', ''-nan''})"

definition float_plain :: "string \<Rightarrow> real pyfloat option" where
  "float_plain s =
     (if is_nan_literal (strip s) then Some NaN else map_option Num (signed_decimal (strip s)))"

text \<open>
  The third builtin is only asked about lists with a NaN that are no ascending run;
  no example has one, and the identity stands in for it.
\<close>

definition py_plain :: "real builtins" where
  "py_plain =
     \<lparr>py_float = float_plain, py_repr = (\<lambda>v. ''<object>''), py_sort_nan = (\<lambda>objs. objs)\<rparr>"

text \<open>The rows of the spec's example.\<close>

definition amount_rows :: "real pyval list" where
  "amount_rows =
     [PDict [(''amount'', PStr ''12.50'')], PDict [(''amount'', PStr ''45'')],
      PDict [(''amount'', PStr ''30'')], PDict [(''amount'', PStr ''9'')]]"

text \<open>Two rows whose values parse to the same number.\<close>

definition tie_rows :: "real pyval list" where
  "tie_rows = [PDict [(''amount'', PStr ''5'')], PDict [(''amount'', PStr ''5.0'')]]"

text \<open>Five rows, one of which holds \<^verbatim>\<open>"nan"\<close>; the other four hold distinct numbers.\<close>

definition nan_rows :: "real pyval list" where
  "nan_rows =
     [PDict [(''amount'', PStr ''10'')], PDict [(''amount'', PStr ''20'')],
      PDict [(''amount'', PStr ''40'')], PDict [(''amount'', PStr ''nan'')],
      PDict [(''amount'', PStr ''30'')]]"

text \<open>The dict \<^verbatim>\<open>raw_result\<close> that \<^verbatim>\<open>process_field\<close> builds around a response body holding the rows.\<close>

definition raw_result_example :: "real pyval list \<Rightarrow> (string \<times> real pyval) list" where
  "raw_result_example rows =
     [(''group'', PStr ''payment''), (''field'', PStr ''amount''), (''status_code'', PInt 200),
      (''filter'', PNone), (''response'', PDict [(''data'', PList rows)])]"

subsection \<open>A scripted remote service and a starting state\<close>

text \<open>
  For the examples: a remote service that answers the \<open>n\<close>-th request with the
  \<open>n\<close>-th outcome of a list and refuses the connection afterwards, a response with a
  JSON body, and a state whose token manager already holds a token.
\<close>

definition net_of :: "'f outcome list \<Rightarrow> 'f network" where
  "net_of outs n req = (if n < length outs then outs ! n else Raises ''connection refused'')"

definition json_response :: "int \<Rightarrow> 'f pyval \<Rightarrow> 'f response" where
  "json_response status body = \<lparr>status_code = status, json_body = Some body, body_text = []\<rparr>"

definition logged_in :: "real state" where
  "logged_in = \<lparr>tm_email = ''user'', tm_password = ''secret'', tm_token = PStr ''t0'', trace = []\<rparr>"

subsection \<open>Files written in a trace\<close>

text \<open>
  The paths of the \<open>Write\<close> events of a trace, in order; and a step from one state to
  another that only extends the trace, without writing a file.
\<close>

fun written :: "'f event list \<Rightarrow> string list list" where
  "written [] = []"
| "written (Write p v # es) = p # written es"
| "written (e # es) = written es"

definition quiet :: "'f state \<Rightarrow> 'f state \<Rightarrow> bool" where
  "quiet s s' = (\<exists>es. trace s' = trace s @ es \<and> written es = [])"

subsection \<open>Example responses, states and remote services\<close>

text \<open>
  A state with no token, and a login response body that carries a token.
\<close>

definition logged_out :: "real state" where
  "logged_out = \<lparr>tm_email = ''user'', tm_password = ''secret'', tm_token = PNone, trace = []\<rparr>"

definition token_body :: "string \<Rightarrow> real pyval" where
  "token_body tok = PDict [(''data'', PDict [(''access_token'', PStr tok)])]"

text \<open>
  Responses with status 401 and 403, and a response with status 200 whose rows hold an
  empty string and a null for the field \<^verbatim>\<open>amount\<close>.
\<close>

definition unauthorized :: "real response" where
  "unauthorized = json_response 401 (PDict [(''message'', PStr ''Unauthenticated.'')])"

definition forbidden :: "real response" where
  "forbidden = json_response 403 (PDict [(''message'', PStr ''Forbidden'')])"

definition blank_rows :: "real response" where
  "blank_rows =
     json_response 200
       (PDict [(''data'', PList [PDict [(''amount'', PStr [])], PDict [(''amount'', PNone)]])])"

text \<open>
  The states of \<^verbatim>\<open>process_field\<close> for \<^verbatim>\<open>payment.amount\<close> with output
  directory \<^verbatim>\<open>results\<close> and delay 2: before the raw fetch, after its first
  request, and after the login request that follows a 401.
\<close>

definition started :: "real state" where
  "started = emit (Sleep 2) (emit (MakeDirs [''results'', ''payment'', ''amount'']) logged_in)"

definition amount_request :: "string \<Rightarrow> real request" where
  "amount_request tok =
     form_request REPORT_URL (report_headers py_plain (PStr tok))
       (report_payload ''payment'' ''amount'' None PNone) 30"

definition after_first_post :: "real state" where
  "after_first_post = emit (Post (amount_request ''t0'')) started"

definition after_relogin :: "real state" where
  "after_relogin =
     emit (Post (login_request ''user'' ''secret'' 10)) (after_first_post\<lparr>tm_token := PNone\<rparr>)"

text \<open>
  Three remote services that answer the first report request with a 401. The login that
  follows is answered with status 403; with a new token, and the retried report request
  with a second 401; with status 200 and the body \<^verbatim>\<open>{"data": []}\<close>.
\<close>

definition relogin_refused :: "real network" where
  "relogin_refused = net_of [Returns unauthorized, Returns forbidden]"

definition relogin_granted :: "real network" where
  "relogin_granted =
     net_of [Returns unauthorized, Returns (json_response 200 (token_body ''t1'')),
             Returns unauthorized]"

definition relogin_malformed :: "real network" where
  "relogin_malformed =
     net_of [Returns unauthorized, Returns (json_response 200 (PDict [(''data'', PList [])]))]"

section \<open>Properties of the sample value extractor\<close>

lemma first_exact_nonblank: "first_exact py row ks = Some v \<Longrightarrow> nonblank py v"
  by (induction ks) (auto split: option.splits if_splits)

lemma first_containing_nonblank: "first_containing py fld items = Some v \<Longrightarrow> nonblank py v"
  by (induction items) (auto split: if_splits)

lemma row_value_nonblank: "row_value py grp fld row = Some v \<Longrightarrow> nonblank py v"
  by (auto simp: row_value_def split: option.splits
      dest: first_exact_nonblank first_containing_nonblank)

lemma collect_values_nonblank:
  "v \<in> set (collect_values py grp fld rows) \<Longrightarrow> nonblank py v"
  by (induction py grp fld rows rule: collect_values.induct)
     (auto split: option.splits dest: row_value_nonblank)

lemma is_numeric_iff: "is_numeric py v \<longleftrightarrow> v \<noteq> PNone \<and> (\<exists>x. py_float py (str py v) = Some x)"
  by (auto simp: is_numeric_def split: option.splits)



lemma same_key_refl: "same_key k k"
  by (simp add: same_key_def)

lemma float_eq_iff: "float_eq a b \<longleftrightarrow> (\<exists>x. a = Num x \<and> b = Num x)"
  by (cases a; cases b) auto

lemma same_key_sym: "same_key a b \<Longrightarrow> same_key b a"
  by (auto simp: same_key_def float_eq_iff)

lemma same_key_trans: "same_key a b \<Longrightarrow> same_key b c \<Longrightarrow> same_key a c"
  by (auto simp: same_key_def float_eq_iff)

lemma getitem_setitem:
  "getitem (setitem d k v) k' = (if same_key k k' then Some v else getitem d k')"
proof (induction d)
  case Nil
  then show ?case by simp
next
  case (Cons item d)
  obtain k0 v0 where item: "item = (k0, v0)" by (cases item)
  show ?case
  proof (cases "same_key k0 k")
    case True
    have "same_key k k' \<longleftrightarrow> same_key k0 k'"
      using True same_key_trans same_key_sym by blast
    then show ?thesis using True by (simp add: item)
  next
    case False
    have "same_key k0 k' \<Longrightarrow> \<not> same_key k k'"
      using False same_key_trans same_key_sym by blast
    then show ?thesis using False Cons.IH by (auto simp: item)
  qed
qed

lemma same_key_number: "same_key (i, y) (j, Num x) \<longleftrightarrow> y = Num x"
  by (cases y) (auto simp: same_key_def)

lemma same_key_nan: "same_key a (j, NaN) \<longleftrightarrow> a = (j, NaN)"
  by (cases a) (auto simp: same_key_def float_eq_iff)

lemma numeric_scan_step:
  assumes "v \<noteq> PNone" and "py_float py (str py v) = Some x"
  shows "numeric_scan py (v # vals) (ns, d) =
           numeric_scan py vals (ns @ [(length ns, x)], setitem d (length ns, x) v)"
  using assms by (simp add: is_numeric_iff Let_def)

lemma numeric_scan_skip:
  assumes "\<not> is_numeric py v"
  shows "numeric_scan py (v # vals) (ns, d) = numeric_scan py vals (ns, d)"
  using assms by simp

lemma numeric_scan_length:
  "length (fst (numeric_scan py vals (ns, d))) \<le> length ns + length vals"
proof (induction vals arbitrary: ns d)
  case Nil
  then show ?case by simp
next
  case (Cons v vals)
  show ?case
  proof (cases "is_numeric py v")
    case True
    then obtain x where x: "v \<noteq> PNone" "py_float py (str py v) = Some x"
      by (auto simp: is_numeric_iff)
    show ?thesis
      unfolding numeric_scan_step [OF x]
      using Cons.IH [of "ns @ [(length ns, x)]" "setitem d (length ns, x) v"] by simp
  next
    case False
    show ?thesis unfolding numeric_scan_skip [OF False] using Cons.IH [of ns d] by simp
  qed
qed

lemma numeric_scan_values:
  "snd ` set (fst (numeric_scan py vals (ns, d))) =
     snd ` set ns \<union> {x. \<exists>v \<in> set vals. v \<noteq> PNone \<and> py_float py (str py v) = Some x}"
proof (induction vals arbitrary: ns d)
  case Nil
  then show ?case by simp
next
  case (Cons v vals)
  show ?case
  proof (cases "is_numeric py v")
    case True
    then obtain x where x: "v \<noteq> PNone" "py_float py (str py v) = Some x"
      by (auto simp: is_numeric_iff)
    show ?thesis unfolding numeric_scan_step [OF x] Cons.IH using x by auto
  next
    case False
    show ?thesis unfolding numeric_scan_skip [OF False] Cons.IH using False
      by (auto simp: is_numeric_iff)
  qed
qed

text \<open>The value the dict holds for a number: the last original that parses to it.\<close>

lemma numeric_scan_number:
  "getitem (snd (numeric_scan py vals (ns, d))) (i, Num x) =
     (case filter (\<lambda>v. v \<noteq> PNone \<and> py_float py (str py v) = Some (Num x)) vals of
        [] \<Rightarrow> getitem d (i, Num x)
      | w # ws \<Rightarrow> Some (last (w # ws)))"
proof (induction vals arbitrary: ns d)
  case Nil
  then show ?case by simp
next
  case (Cons v vals)
  show ?case
  proof (cases "is_numeric py v")
    case True
    then obtain y where y: "v \<noteq> PNone" "py_float py (str py v) = Some y"
      by (auto simp: is_numeric_iff)
    show ?thesis unfolding numeric_scan_step [OF y] Cons.IH using y
      by (auto simp: getitem_setitem same_key_number split: list.splits)
  next
    case False
    show ?thesis unfolding numeric_scan_skip [OF False] Cons.IH using False
      by (auto simp: is_numeric_iff split: list.splits)
  qed
qed

text \<open>The value the dict holds for a NaN object: nothing replaces it.\<close>

lemma numeric_scan_nan_kept:
  assumes "k \<in> set ns" and "snd k = NaN" and "\<forall>obj \<in> set ns. fst obj < length ns"
  shows "getitem (snd (numeric_scan py vals (ns, d))) k = getitem d k"
  using assms
proof (induction vals arbitrary: ns d)
  case Nil
  then show ?case by simp
next
  case (Cons v vals)
  show ?case
  proof (cases "is_numeric py v")
    case True
    then obtain y where y: "v \<noteq> PNone" "py_float py (str py v) = Some y"
      by (auto simp: is_numeric_iff)
    obtain j where k: "k = (j, NaN)" using Cons.prems(2) by (cases k) auto
    have j: "j < length ns" using Cons.prems(1,3) k by auto
    have a: "k \<in> set (ns @ [(length ns, y)])" using Cons.prems(1) by simp
    have b: "\<forall>obj \<in> set (ns @ [(length ns, y)]). fst obj < length (ns @ [(length ns, y)])"
      using Cons.prems(3) by (auto simp: less_Suc_eq)
    have "getitem (snd (numeric_scan py vals (ns @ [(length ns, y)], setitem d (length ns, y) v))) k
            = getitem (setitem d (length ns, y) v) k"
      by (rule Cons.IH [OF a Cons.prems(2) b])
    also have "\<dots> = getitem d k"
      using j by (simp add: getitem_setitem k same_key_nan)
    finally show ?thesis unfolding numeric_scan_step [OF y] .
  next
    case False
    show ?thesis unfolding numeric_scan_skip [OF False]
      by (rule Cons.IH [OF Cons.prems])
  qed
qed

lemma numeric_scan_nan:
  assumes "k \<in> set (fst (numeric_scan py vals (ns, d)))" and "snd k = NaN" and "k \<notin> set ns"
      and "\<forall>obj \<in> set ns. fst obj < length ns"
  shows "\<exists>v \<in> set vals. v \<noteq> PNone \<and> py_float py (str py v) = Some NaN
           \<and> getitem (snd (numeric_scan py vals (ns, d))) k = Some v"
  using assms
proof (induction vals arbitrary: ns d)
  case Nil
  then show ?case by simp
next
  case (Cons v vals)
  show ?case
  proof (cases "is_numeric py v")
    case True
    then obtain y where y: "v \<noteq> PNone" "py_float py (str py v) = Some y"
      by (auto simp: is_numeric_iff)
    let ?ns = "ns @ [(length ns, y)]" and ?d = "setitem d (length ns, y) v"
    have step: "numeric_scan py (v # vals) (ns, d) = numeric_scan py vals (?ns, ?d)"
      by (rule numeric_scan_step [OF y])
    have mem: "k \<in> set (fst (numeric_scan py vals (?ns, ?d)))"
      using Cons.prems(1) unfolding step .
    have b: "\<forall>obj \<in> set ?ns. fst obj < length ?ns"
      using Cons.prems(4) by (auto simp: less_Suc_eq)
    show ?thesis
    proof (cases "k \<in> set ?ns")
      case True
      then have k: "k = (length ns, y)" using Cons.prems(3) by simp
      then have nan: "y = NaN" using Cons.prems(2) by simp
      have "getitem (snd (numeric_scan py vals (?ns, ?d))) k = getitem ?d k"
        by (rule numeric_scan_nan_kept [OF True Cons.prems(2) b])
      also have "\<dots> = Some v" by (simp add: getitem_setitem k same_key_refl)
      finally show ?thesis unfolding step using y nan by auto
    next
      case False
      obtain u where "u \<in> set vals" "u \<noteq> PNone" "py_float py (str py u) = Some NaN"
          "getitem (snd (numeric_scan py vals (?ns, ?d))) k = Some u"
        using Cons.IH [OF mem Cons.prems(2) False b] by blast
      then show ?thesis unfolding step by auto
    qed
  next
    case False
    have step: "numeric_scan py (v # vals) (ns, d) = numeric_scan py vals (ns, d)"
      by (rule numeric_scan_skip [OF False])
    obtain u where "u \<in> set vals" "u \<noteq> PNone" "py_float py (str py u) = Some NaN"
        "getitem (snd (numeric_scan py vals (ns, d))) k = Some u"
      using Cons.IH [OF Cons.prems(1) [unfolded step] Cons.prems(2,3,4)] by blast
    then show ?thesis unfolding step by auto
  qed
qed

text \<open>\<^verbatim>\<open>list.sort()\<close> leaves a permutation; without a NaN, the numbers in order.\<close>

lemma mset_list_sort: "mset (list_sort py objs) = mset objs"
  by (simp add: list_sort_def)

lemma length_list_sort: "length (list_sort py objs) = length objs"
  using mset_list_sort [of py objs] by (metis size_mset)

lemma set_list_sort: "set (list_sort py objs) = set objs"
  using mset_list_sort [of py objs] by (metis set_mset_mset)

lemma number_inject: "number a = number b \<Longrightarrow> a = b"
  by (cases a; cases b) simp_all

lemma sort_map_Some: "sort (map Some xs) = map Some (sort xs)"
proof (rule properties_for_sort)
  show "mset (map Some (sort xs)) = mset (map Some xs)" by simp
  show "sorted (map Some (sort xs))" by (simp add: sorted_map sorted_wrt_map)
qed

lemma list_sort_numbers:
  assumes "map snd objs = map Num xs"
  shows "map snd (list_sort py objs) = map Num (sort xs)"
proof -
  let ?k = "\<lambda>obj. number (snd obj)"
  have all: "list_all (\<lambda>obj. snd obj \<noteq> NaN) objs"
  proof -
    have "\<forall>v \<in> set (map snd objs). v \<noteq> NaN" unfolding assms by auto
    then show ?thesis by (simp add: list_all_iff)
  qed
  have keys: "map ?k objs = map Some xs"
  proof -
    have "map ?k objs = map number (map snd objs)" by simp
    also have "\<dots> = map Some xs" unfolding assms by simp
    finally show ?thesis .
  qed
  have "map ?k (sort_key ?k objs) = sort (map ?k objs)"
    by (rule properties_for_sort [symmetric]) simp_all
  then have "map number (map snd (list_sort py objs)) = map number (map Num (sort xs))"
    using all by (simp add: list_sort_def keys sort_map_Some comp_def)
  moreover have "inj number" by (rule injI) (rule number_inject)
  ultimately show ?thesis using inj_map_eq_map [of number] by blast
qed

lemma mid_arith:
  fixes a b :: nat
  assumes "a < b"
  shows "a + (b - a) div 2 < b"
  using assms by linarith

lemma quartile_bounds:
  fixes n :: nat
  assumes "2 \<le> n"
  shows "n div 4 < 3 * n div 4" and "3 * n div 4 \<le> n"
  using assms by linarith+

lemma middle_range_index:
  assumes "2 \<le> length xs"
  shows "middle_range xs \<noteq> []"
    and "middle_range xs ! middle_idx xs =
           xs ! (length xs div 4 + (3 * length xs div 4 - length xs div 4) div 2)"
    and "length xs div 4 + (3 * length xs div 4 - length xs div 4) div 2 < 3 * length xs div 4"
proof -
  define a where "a = length xs div 4"
  define b where "b = 3 * length xs div 4"
  have lt: "a < b" and le: "b \<le> length xs"
    unfolding a_def b_def using quartile_bounds [OF assms] by blast+
  have mr: "middle_range xs = drop a (take b xs)"
    by (simp add: middle_range_def Let_def a_def b_def)
  have len: "length (middle_range xs) = b - a"
    unfolding mr using le by simp
  show "middle_range xs \<noteq> []"
    using len lt by (cases "middle_range xs") simp_all
  have idx: "a + (b - a) div 2 < b" by (rule mid_arith [OF lt])
  show "length xs div 4 + (3 * length xs div 4 - length xs div 4) div 2 < 3 * length xs div 4"
    using idx unfolding a_def b_def .
  have "middle_range xs ! middle_idx xs = drop a (take b xs) ! ((b - a) div 2)"
    using len by (simp add: middle_idx_def mr)
  also have "\<dots> = take b xs ! (a + (b - a) div 2)"
    using le lt by (intro nth_drop) simp
  also have "\<dots> = xs ! (a + (b - a) div 2)"
    using idx by (rule nth_take)
  finally show "middle_range xs ! middle_idx xs =
           xs ! (length xs div 4 + (3 * length xs div 4 - length xs div 4) div 2)"
    unfolding a_def b_def .
qed

lemma collect_amount_rows:
  "collect_values py_plain ''payment'' ''amount'' amount_rows =
     [PStr ''12.50'', PStr ''45'', PStr ''30'', PStr ''9'']"
  by (simp add: amount_rows_def row_value_def possible_keys_def nonblank_def strip_def
      is_space_def)

lemma float_plain_amounts:
  "float_plain ''12.50'' = Some (Num 12.5)" "float_plain ''45'' = Some (Num 45)"
  "float_plain ''30'' = Some (Num 30)" "float_plain ''9'' = Some (Num 9)"
  "float_plain ''5'' = Some (Num 5)" "float_plain ''5.0'' = Some (Num 5)"
  "float_plain ''10'' = Some (Num 10)" "float_plain ''20'' = Some (Num 20)"
  "float_plain ''40'' = Some (Num 40)" "float_plain ''nan'' = Some NaN"
  by (simp_all add: float_plain_def signed_decimal_def unsigned_decimal_def is_nan_literal_def
      lower_def lower_char_def strip_def is_space_def is_digit_def digits_value_def)

lemma scan_amount_rows:
  "fst (numeric_scan py_plain [PStr ''12.50'', PStr ''45'', PStr ''30'', PStr ''9''] ([], []))
     = [(0, Num 12.5), (1, Num 45), (2, Num 30), (3, Num 9)]"
  by (simp add: is_numeric_def py_plain_def float_plain_amounts Let_def)

lemma sort_amount_rows:
  "list_sort py_plain [(0, Num 12.5), (1, Num 45), (2, Num 30), (3, Num 9)]
     = [(3, Num 9), (0, Num 12.5), (2, Num 30), (1, Num 45)]"
  by (simp add: list_sort_def)

lemma extract_amount_rows:
  "extract_sample_value py_plain (raw_result_example amount_rows) ''payment'' ''amount'' True
     = PStr ''30''"
  unfolding extract_sample_value_def raw_result_example_def
  apply (simp add: sample_of_rows_def collect_amount_rows)
  apply (simp add: amount_rows_def is_numeric_def py_plain_def float_plain_amounts
      list_sort_def middle_range_def middle_idx_def same_key_def Let_def)
  done

text \<open>
  Claim C1, as the code has it. For the rows
  \<^verbatim>\<open>[{"amount": "12.50"}, {"amount": "45"}, {"amount": "30"}, {"amount": "9"}]\<close>
  and the field \<^verbatim>\<open>amount\<close> the parsed numbers sort to \<open>[9, 12.5, 30, 45]\<close>, the
  slice at indices \<open>[1, 3)\<close> is \<open>[12.5, 30]\<close>, the index
  \<^verbatim>\<open>len(middle_range) // 2\<close> into that slice is 1 (not 0), the selected number is
  30, and the comparison sample is the original value \<^verbatim>\<open>"30"\<close>. Each float is
  written with its identity, the position of the row it was parsed from.
\<close>

theorem amount_example_sample:
  "fst (numeric_scan py_plain (collect_values py_plain ''payment'' ''amount'' amount_rows) ([], []))
     = [(0, Num 12.5), (1, Num 45), (2, Num 30), (3, Num 9)]
   \<and> list_sort py_plain [(0, Num 12.5), (1, Num 45), (2, Num 30), (3, Num 9)]
       = [(3, Num 9), (0, Num 12.5), (2, Num 30), (1, Num 45)]
   \<and> middle_range [(3, Num 9), (0, Num 12.5), (2, Num 30), (1, Num 45) :: real float_obj]
       = [(0, Num 12.5), (2, Num 30)]
   \<and> middle_idx [(3, Num 9), (0, Num 12.5), (2, Num 30), (1, Num 45) :: real float_obj] = 1
   \<and> extract_sample_value py_plain (raw_result_example amount_rows) ''payment'' ''amount'' True
       = PStr ''30''"
proof (intro conjI)
  show "fst (numeric_scan py_plain
               (collect_values py_plain ''payment'' ''amount'' amount_rows) ([], []))
          = [(0, Num 12.5), (1, Num 45), (2, Num 30), (3, Num 9)]"
    unfolding collect_amount_rows by (rule scan_amount_rows)
  show "list_sort py_plain [(0, Num 12.5), (1, Num 45), (2, Num 30), (3, Num 9)]
          = [(3, Num 9), (0, Num 12.5), (2, Num 30), (1, Num 45)]"
    by (rule sort_amount_rows)
  show "middle_range [(3, Num 9), (0, Num 12.5), (2, Num 30), (1, Num 45) :: real float_obj]
          = [(0, Num 12.5), (2, Num 30)]"
    by (simp add: middle_range_def)
  show "middle_idx [(3, Num 9), (0, Num 12.5), (2, Num 30), (1, Num 45) :: real float_obj] = 1"
    by (simp add: middle_idx_def middle_range_def)
  show "extract_sample_value py_plain (raw_result_example amount_rows) ''payment'' ''amount'' True
          = PStr ''30''"
    by (rule extract_amount_rows)
qed

text \<open>
  Claim C1 as stated fails: the comparison sample of the example is not
  \<^verbatim>\<open>"12.50"\<close>.
\<close>

theorem amount_example_not_first_of_slice:
  "extract_sample_value py_plain (raw_result_example amount_rows) ''payment'' ''amount'' True
     \<noteq> PStr ''12.50''"
  by (simp add: extract_amount_rows)

lemma extract_rows:
  assumes "map_of response_data ''response'' = Some (PDict body)"
      and "map_of body ''data'' = Some (PList data_rows)"
      and "data_rows \<noteq> []"
  shows "extract_sample_value py response_data grp fld c = sample_of_rows py grp fld c data_rows"
  using assms by (simp add: extract_sample_value_def)

lemma sample_of_rows_comparison:
  fixes py :: "('f::linorder) builtins"
  assumes "vals = collect_values py grp fld data_rows"
      and "nums = fst (numeric_scan py vals ([], []))"
      and "1 < length nums"
      and "sel = middle_range (list_sort py nums) ! middle_idx (list_sort py nums)"
  shows "\<exists>w ws. filter (\<lambda>v. py_float py (str py v) = Some (snd sel)) vals = w # ws
           \<and> sample_of_rows py grp fld True data_rows \<in> set (w # ws)
           \<and> (snd sel \<noteq> NaN \<longrightarrow> sample_of_rows py grp fld True data_rows = last (w # ws))"
proof -
  let ?S = "list_sort py nums"
  let ?r = "sample_of_rows py grp fld True data_rows"
  obtain ns d where scan: "numeric_scan py vals ([], []) = (ns, d)"
    by (cases "numeric_scan py vals ([], [])")
  then have ns: "ns = nums" using assms(2) by simp
  have d: "d = snd (numeric_scan py vals ([], []))" using scan by simp
  have len: "length nums \<le> length vals"
    using numeric_scan_length [of py vals "[]" "[]"] assms(2) by simp
  then have vals: "vals \<noteq> []" "1 < length vals" using assms(3) by auto
  have two: "2 \<le> length ?S" using assms(3) by (simp add: length_list_sort)
  have ne: "middle_range ?S \<noteq> []" by (rule middle_range_index(1) [OF two])
  have "length ?S div 4 + (3 * length ?S div 4 - length ?S div 4) div 2 < length ?S"
    using middle_range_index(3) [OF two] by linarith
  then have "sel \<in> set ?S"
    unfolding assms(4) middle_range_index(2) [OF two] by (rule nth_mem)
  then have mem: "sel \<in> set nums" by (simp add: set_list_sort)
  have r: "?r = (case getitem d sel of Some v \<Rightarrow> v | None \<Rightarrow> PNone)"
    using vals ne assms(3)
    by (simp add: sample_of_rows_def assms(1) [symmetric] scan ns Let_def assms(4))
  have nonnone: "\<And>u. u \<in> set vals \<Longrightarrow> u \<noteq> PNone"
    using collect_values_nonblank [of _ py grp fld data_rows] assms(1)
    by (auto simp: nonblank_def)
  have same: "filter (\<lambda>v. v \<noteq> PNone \<and> py_float py (str py v) = Some y) vals
                = filter (\<lambda>v. py_float py (str py v) = Some y) vals" for y
    by (rule filter_cong) (auto dest: nonnone)
  obtain i y where sel: "sel = (i, y)" by (cases sel)
  show ?thesis
  proof (cases y)
    case NaN
    have "\<exists>v \<in> set vals. v \<noteq> PNone \<and> py_float py (str py v) = Some NaN
            \<and> getitem (snd (numeric_scan py vals ([], []))) sel = Some v"
      by (rule numeric_scan_nan) (use mem assms(2) sel NaN in simp_all)
    then obtain v where v: "v \<in> set vals" "py_float py (str py v) = Some NaN"
        "getitem d sel = Some v"
      unfolding d by blast
    have "v \<in> set (filter (\<lambda>v. py_float py (str py v) = Some NaN) vals)" using v by simp
    moreover obtain w ws where f: "filter (\<lambda>v. py_float py (str py v) = Some NaN) vals = w # ws"
      using calculation by (cases "filter (\<lambda>v. py_float py (str py v) = Some NaN) vals") auto
    ultimately show ?thesis using r v(3) by (simp add: sel NaN)
  next
    case (Num x)
    have "Num x \<in> snd ` set nums" using mem sel Num by force
    then obtain v where v: "v \<in> set vals" "v \<noteq> PNone" "py_float py (str py v) = Some (Num x)"
      unfolding assms(2) numeric_scan_values by auto
    have "v \<in> set (filter (\<lambda>v. py_float py (str py v) = Some (Num x)) vals)" using v by simp
    then obtain w ws where f: "filter (\<lambda>v. py_float py (str py v) = Some (Num x)) vals = w # ws"
      by (cases "filter (\<lambda>v. py_float py (str py v) = Some (Num x)) vals") auto
    have look: "getitem d (i, Num x) = Some (last (w # ws))"
      unfolding d numeric_scan_number same f by simp
    have "?r = last (w # ws)" using r look by (simp add: sel Num)
    moreover have "last (w # ws) \<in> set (w # ws)" by (rule last_in_set) simp
    ultimately show ?thesis using f by (simp add: sel Num)
  qed
qed

lemma extract_comparison:
  fixes py :: "('f::linorder) builtins"
  assumes "map_of response_data ''response'' = Some (PDict body)"
      and "map_of body ''data'' = Some (PList data_rows)"
      and "vals = collect_values py grp fld data_rows"
      and "nums = fst (numeric_scan py vals ([], []))"
      and "1 < length nums"
      and "selected_numeric = middle_range (list_sort py nums) ! middle_idx (list_sort py nums)"
  shows "\<exists>w ws. filter (\<lambda>v. py_float py (str py v) = Some (snd selected_numeric)) vals = w # ws
           \<and> extract_sample_value py response_data grp fld True \<in> set (w # ws)
           \<and> (snd selected_numeric \<noteq> NaN
                \<longrightarrow> extract_sample_value py response_data grp fld True = last (w # ws))"
proof -
  have "length nums \<le> length vals"
    using numeric_scan_length [of py vals "[]" "[]"] assms(4) by simp
  then have "vals \<noteq> []" using assms(5) by auto
  then have "data_rows \<noteq> []" using assms(3) by auto
  then have "extract_sample_value py response_data grp fld True
               = sample_of_rows py grp fld True data_rows"
    by (rule extract_rows [OF assms(1,2)])
  then show ?thesis
    using sample_of_rows_comparison [OF assms(3,4,5,6)] by simp
qed


text \<open>
  Claim C5, as the code has it. When at least two collected values are numeric, the
  collected values whose parse is the value of the selected float are not none, and
  the comparison sample is one of them. When the selected float is a number the sample
  is the \<^emph>\<open>last\<close> of them: each assignment
  \<^verbatim>\<open>original_to_numeric[numeric_val] = val\<close> replaces the value an equal key held.
  (A NaN is equal to no key but itself, so a selected NaN gives the value it was
  parsed from.)
\<close>

theorem comparison_sample_last_occurrence:
  fixes py :: "('f::linorder) builtins"
  assumes "map_of response_data ''response'' = Some (PDict body)"
      and "map_of body ''data'' = Some (PList data_rows)"
      and "vals = collect_values py grp fld data_rows"
      and "nums = fst (numeric_scan py vals ([], []))"
      and "1 < length nums"
      and "selected_numeric = middle_range (list_sort py nums) ! middle_idx (list_sort py nums)"
  shows "\<exists>w ws. filter (\<lambda>v. py_float py (str py v) = Some (snd selected_numeric)) vals = w # ws
           \<and> extract_sample_value py response_data grp fld True \<in> set (w # ws)
           \<and> (snd selected_numeric \<noteq> NaN
                \<longrightarrow> extract_sample_value py response_data grp fld True = last (w # ws))"
  using assms by (rule extract_comparison)

lemma collect_tie_rows:
  "collect_values py_plain ''payment'' ''amount'' tie_rows = [PStr ''5'', PStr ''5.0'']"
  by (simp add: tie_rows_def row_value_def possible_keys_def nonblank_def strip_def
      is_space_def)

lemma extract_tie_rows:
  "extract_sample_value py_plain (raw_result_example tie_rows) ''payment'' ''amount'' True
     = PStr ''5.0''"
  unfolding extract_sample_value_def raw_result_example_def
  apply (simp add: sample_of_rows_def collect_tie_rows)
  apply (simp add: tie_rows_def is_numeric_def py_plain_def float_plain_amounts
      list_sort_def middle_range_def middle_idx_def same_key_def Let_def)
  done

text \<open>
  Claim C5 as stated fails: \<^verbatim>\<open>"5"\<close> and \<^verbatim>\<open>"5.0"\<close> parse to the same number,
  \<^verbatim>\<open>"5"\<close> is collected first, and the comparison sample is not \<^verbatim>\<open>"5"\<close>.
\<close>

theorem tie_not_first_occurrence:
  "collect_values py_plain ''payment'' ''amount'' tie_rows = [PStr ''5'', PStr ''5.0'']
   \<and> py_float py_plain (str py_plain (PStr ''5'')) = Some (Num 5)
   \<and> py_float py_plain (str py_plain (PStr ''5.0'')) = Some (Num 5)
   \<and> extract_sample_value py_plain (raw_result_example tie_rows) ''payment'' ''amount'' True
       \<noteq> PStr ''5''"
proof -
  have p: "py_float py_plain s = float_plain s" for s by (simp add: py_plain_def)
  show ?thesis by (simp add: collect_tie_rows extract_tie_rows p float_plain_amounts)
qed

text \<open>The theorem of claim C5 at the two rows: the sample is \<^verbatim>\<open>"5.0"\<close>, the last one.\<close>

theorem comparison_sample_last_occurrence_witness:
  "\<exists>w ws. filter (\<lambda>v. py_float py_plain (str py_plain v) = Some (Num 5))
              [PStr ''5'', PStr ''5.0''] = w # ws
     \<and> extract_sample_value py_plain (raw_result_example tie_rows) ''payment'' ''amount'' True
         = last (w # ws)"
proof -
  have a: "map_of (raw_result_example tie_rows) ''response'' = Some (PDict [(''data'', PList tie_rows)])"
    by (simp add: raw_result_example_def)
  have b: "map_of [(''data'', PList tie_rows)] ''data'' = Some (PList tie_rows)" by simp
  have c: "[PStr ''5'', PStr ''5.0''] = collect_values py_plain ''payment'' ''amount'' tie_rows"
    by (simp add: collect_tie_rows)
  have d: "[(0, Num 5), (1, Num 5)]
             = fst (numeric_scan py_plain [PStr ''5'', PStr ''5.0''] ([], []))"
    by (simp add: is_numeric_def py_plain_def float_plain_amounts Let_def)
  have e: "1 < length [(0, Num 5), (1, Num 5) :: real float_obj]" by simp
  have f: "(0, Num 5) = middle_range (list_sort py_plain [(0, Num 5), (1, Num 5)])
                          ! middle_idx (list_sort py_plain [(0, Num 5), (1, Num 5)])"
    by (simp add: list_sort_def middle_range_def middle_idx_def)
  obtain w ws
    where "filter (\<lambda>v. py_float py_plain (str py_plain v) = Some (snd (0 :: nat, Num 5 :: real pyfloat)))
             [PStr ''5'', PStr ''5.0''] = w # ws"
      and "snd (0 :: nat, Num 5 :: real pyfloat) \<noteq> NaN
             \<longrightarrow> extract_sample_value py_plain (raw_result_example tie_rows)
                   ''payment'' ''amount'' True = last (w # ws)"
    using comparison_sample_last_occurrence [OF a b c d e f] by blast
  then have "filter (\<lambda>v. py_float py_plain (str py_plain v) = Some (Num 5))
               [PStr ''5'', PStr ''5.0''] = w # ws
             \<and> extract_sample_value py_plain (raw_result_example tie_rows)
                   ''payment'' ''amount'' True = last (w # ws)"
    by (simp only: snd_conv pyfloat.distinct simp_thms)
  then show ?thesis by blast
qed

text \<open>
  When the rows yield at least 4 distinct numbers and no NaN, the comparison sample
  is one of the collected original values, and its parse is the element of the sorted
  numbers at an index \<open>i\<close> with \<open>n div 4 \<le> i < 3 * n div 4\<close>, where \<open>n\<close> is the
  number of numeric values.
\<close>

theorem comparison_sample_in_middle_range:
  fixes py :: "('f::linorder) builtins"
  assumes "map_of response_data ''response'' = Some (PDict body)"
      and "map_of body ''data'' = Some (PList data_rows)"
      and "vals = collect_values py grp fld data_rows"
      and "nums = fst (numeric_scan py vals ([], []))"
      and "map snd nums = map Num xs"
      and "4 \<le> card (set xs)"
  shows "\<exists>i. length xs div 4 \<le> i \<and> i < 3 * length xs div 4
           \<and> py_float py (str py (extract_sample_value py response_data grp fld True))
               = Some (Num (sort xs ! i))
           \<and> extract_sample_value py response_data grp fld True \<in> set vals"
proof -
  let ?S = "list_sort py nums"
  let ?sel = "middle_range ?S ! middle_idx ?S"
  let ?i = "length xs div 4 + (3 * length xs div 4 - length xs div 4) div 2"
  let ?r = "extract_sample_value py response_data grp fld True"
  have n: "length nums = length xs" using assms(5) by (metis length_map)
  have "card (set xs) \<le> length xs" by (rule card_length)
  then have four: "4 \<le> length xs" using assms(6) by linarith
  then have len: "1 < length nums" using n by linarith
  have lenS: "length ?S = length xs" by (simp add: length_list_sort n)
  have two: "2 \<le> length ?S" using four lenS by linarith
  have hi: "?i < 3 * length xs div 4" using middle_range_index(3) [OF two] by (simp add: lenS)
  have "3 * length xs div 4 \<le> length xs" by linarith
  then have inS: "?i < length ?S" using hi lenS by linarith
  have sel: "?sel = ?S ! ?i" using middle_range_index(2) [OF two] by (simp add: lenS)
  have "snd ?sel = map snd ?S ! ?i" unfolding sel using inS by simp
  also have "\<dots> = map Num (sort xs) ! ?i" by (simp only: list_sort_numbers [OF assms(5)])
  also have "\<dots> = Num (sort xs ! ?i)" using inS lenS by simp
  finally have v: "snd ?sel = Num (sort xs ! ?i)" .
  obtain w ws where f: "filter (\<lambda>v. py_float py (str py v) = Some (snd ?sel)) vals = w # ws"
      and r: "?r \<in> set (w # ws)"
    using extract_comparison [OF assms(1-4) len refl] by blast
  have mem: "?r \<in> set (filter (\<lambda>v. py_float py (str py v) = Some (snd ?sel)) vals)"
    using f r by simp
  have p: "py_float py (str py ?r) = Some (Num (sort xs ! ?i))" using mem v by simp
  have m: "?r \<in> set vals" using mem by simp
  have lo: "length xs div 4 \<le> ?i" by simp
  show ?thesis using lo hi p m by (intro exI [of _ ?i] conjI)
qed

text \<open>That theorem at the four rows of the example.\<close>

theorem comparison_sample_in_middle_range_witness:
  "\<exists>i. length [12.5, 45, 30, 9 :: real] div 4 \<le> i \<and> i < 3 * length [12.5, 45, 30, 9 :: real] div 4
     \<and> py_float py_plain (str py_plain
          (extract_sample_value py_plain (raw_result_example amount_rows) ''payment'' ''amount'' True))
         = Some (Num (sort [12.5, 45, 30, 9 :: real] ! i))
     \<and> extract_sample_value py_plain (raw_result_example amount_rows) ''payment'' ''amount'' True
         \<in> set [PStr ''12.50'', PStr ''45'', PStr ''30'', PStr ''9'']"
proof -
  have a: "map_of (raw_result_example amount_rows) ''response''
             = Some (PDict [(''data'', PList amount_rows)])"
    by (simp add: raw_result_example_def)
  have b: "map_of [(''data'', PList amount_rows)] ''data'' = Some (PList amount_rows)" by simp
  have c: "[PStr ''12.50'', PStr ''45'', PStr ''30'', PStr ''9'']
             = collect_values py_plain ''payment'' ''amount'' amount_rows"
    by (simp add: collect_amount_rows)
  have d: "[(0, Num 12.5), (1, Num 45), (2, Num 30), (3, Num 9)]
             = fst (numeric_scan py_plain [PStr ''12.50'', PStr ''45'', PStr ''30'', PStr ''9'']
                      ([], []))"
    by (rule scan_amount_rows [symmetric])
  have e: "map snd [(0 :: nat, Num 12.5), (1, Num 45), (2, Num 30), (3, Num 9)]
             = map Num [12.5, 45, 30, 9 :: real]"
    by simp
  have f: "4 \<le> card (set [12.5, 45, 30, 9 :: real])" by simp
  show ?thesis by (rule comparison_sample_in_middle_range [OF a b c d e f])
qed

lemma collect_nan_rows:
  "collect_values py_plain ''payment'' ''amount'' nan_rows =
     [PStr ''10'', PStr ''20'', PStr ''40'', PStr ''nan'', PStr ''30'']"
  by (simp add: nan_rows_def row_value_def possible_keys_def nonblank_def strip_def
      is_space_def)

lemma scan_nan_rows:
  "fst (numeric_scan py_plain [PStr ''10'', PStr ''20'', PStr ''40'', PStr ''nan'', PStr ''30'']
          ([], []))
     = [(0, Num 10), (1, Num 20), (2, Num 40), (3, NaN), (4, Num 30)]"
  by (simp add: is_numeric_def py_plain_def float_plain_amounts Let_def)

lemma sort_nan_rows:
  "list_sort py_plain [(0, Num 10), (1, Num 20), (2, Num 40), (3, NaN), (4, Num 30)]
     = [(0, Num 10), (1, Num 20), (2, Num 40), (3, NaN), (4, Num 30)]"
  by (simp add: list_sort_def)

lemma extract_nan_rows:
  "extract_sample_value py_plain (raw_result_example nan_rows) ''payment'' ''amount'' True
     = PStr ''40''"
  unfolding extract_sample_value_def raw_result_example_def
  apply (simp add: sample_of_rows_def collect_nan_rows)
  apply (simp add: nan_rows_def is_numeric_def py_plain_def float_plain_amounts
      list_sort_def middle_range_def middle_idx_def same_key_def Let_def)
  done

text \<open>
  Claim C4 fails on the code when a row value parses to NaN. The rows
  \<^verbatim>\<open>"10"\<close>, \<^verbatim>\<open>"20"\<close>, \<^verbatim>\<open>"40"\<close>, \<^verbatim>\<open>"nan"\<close>, \<^verbatim>\<open>"30"\<close> hold four distinct
  numbers. \<^verbatim>\<open>is_numeric\<close> accepts \<^verbatim>\<open>"nan"\<close>, and \<^verbatim>\<open>numeric_values.sort()\<close> leaves the
  list as it is: no element is less than the one before it, because \<^verbatim>\<open>30 < nan\<close> and
  \<^verbatim>\<open>nan < 40\<close> are false. The slice at indices \<open>[1, 3)\<close> is \<open>[20, 40]\<close> and the
  sample is \<^verbatim>\<open>"40"\<close>. But 40 is the largest of the numbers: in ascending order, with
  the NaN at any of the five places, 40 is not in the slice at indices \<open>[1, 3)\<close>.
\<close>

theorem nan_row_sample_outside_middle_range:
  "collect_values py_plain ''payment'' ''amount'' nan_rows
     = [PStr ''10'', PStr ''20'', PStr ''40'', PStr ''nan'', PStr ''30'']
   \<and> fst (numeric_scan py_plain
            (collect_values py_plain ''payment'' ''amount'' nan_rows) ([], []))
       = [(0, Num 10), (1, Num 20), (2, Num 40), (3, NaN), (4, Num 30)]
   \<and> list_sort py_plain [(0, Num 10), (1, Num 20), (2, Num 40), (3, NaN), (4, Num 30)]
       = [(0, Num 10), (1, Num 20), (2, Num 40), (3, NaN), (4, Num 30)]
   \<and> extract_sample_value py_plain (raw_result_example nan_rows) ''payment'' ''amount'' True
       = PStr ''40''
   \<and> py_float py_plain (str py_plain (PStr ''40'')) = Some (Num 40)
   \<and> sort [10, 20, 40, 30 :: real] = [10, 20, 30, 40]
   \<and> Num 40 \<notin> set (middle_range [NaN, Num 10, Num 20, Num 30, Num 40 :: real pyfloat])
   \<and> Num 40 \<notin> set (middle_range [Num 10, NaN, Num 20, Num 30, Num 40 :: real pyfloat])
   \<and> Num 40 \<notin> set (middle_range [Num 10, Num 20, NaN, Num 30, Num 40 :: real pyfloat])
   \<and> Num 40 \<notin> set (middle_range [Num 10, Num 20, Num 30, NaN, Num 40 :: real pyfloat])
   \<and> Num 40 \<notin> set (middle_range [Num 10, Num 20, Num 30, Num 40, NaN :: real pyfloat])"
proof (intro conjI)
  show "collect_values py_plain ''payment'' ''amount'' nan_rows
          = [PStr ''10'', PStr ''20'', PStr ''40'', PStr ''nan'', PStr ''30'']"
    by (rule collect_nan_rows)
  show "fst (numeric_scan py_plain
               (collect_values py_plain ''payment'' ''amount'' nan_rows) ([], []))
          = [(0, Num 10), (1, Num 20), (2, Num 40), (3, NaN), (4, Num 30)]"
    unfolding collect_nan_rows by (rule scan_nan_rows)
  show "list_sort py_plain [(0, Num 10), (1, Num 20), (2, Num 40), (3, NaN), (4, Num 30)]
          = [(0, Num 10), (1, Num 20), (2, Num 40), (3, NaN), (4, Num 30)]"
    by (rule sort_nan_rows)
  show "extract_sample_value py_plain (raw_result_example nan_rows) ''payment'' ''amount'' True
          = PStr ''40''"
    by (rule extract_nan_rows)
  show "py_float py_plain (str py_plain (PStr ''40'')) = Some (Num 40)"
    by (simp add: py_plain_def float_plain_amounts)
  show "sort [10, 20, 40, 30 :: real] = [10, 20, 30, 40]" by simp
qed (simp_all add: middle_range_def)

section \<open>Properties of the request client, the token manager and the field processor\<close>

text \<open>
  Claim C9. A sample value other than \<^verbatim>\<open>None\<close> is numeric exactly when
  \<^verbatim>\<open>float(str(value))\<close> parses; a numeric sample gets all six operators, in the
  order of \<^verbatim>\<open>FILTERS\<close>, and every other sample gets them without
  \<^verbatim>\<open>greater\<close> and \<^verbatim>\<open>less\<close>.
\<close>

theorem applicable_filters_by_numeric_class:
  assumes "sample_value \<noteq> PNone"
  shows "(is_numeric py sample_value \<longleftrightarrow> (\<exists>x. py_float py (str py sample_value) = Some x))
         \<and> get_applicable_filters py sample_value
             = (if is_numeric py sample_value
                then [''equal'', ''not_equal'', ''greater'', ''less'', ''like'', ''in'']
                else [''equal'', ''not_equal'', ''like'', ''in''])"
  using assms by (simp add: get_applicable_filters_def FILTERS_def is_numeric_iff)

lemma float_plain_words: "float_plain ''abc'' = None"
  by (simp add: float_plain_def signed_decimal_def unsigned_decimal_def is_nan_literal_def
      lower_def lower_char_def strip_def is_space_def is_digit_def)

text \<open>The theorem of claim C9 at the samples \<^verbatim>\<open>"abc"\<close> and \<^verbatim>\<open>"30"\<close>.\<close>

theorem applicable_filters_by_numeric_class_witness:
  "get_applicable_filters py_plain (PStr ''abc'') = [''equal'', ''not_equal'', ''like'', ''in'']
   \<and> get_applicable_filters py_plain (PStr ''30'')
       = [''equal'', ''not_equal'', ''greater'', ''less'', ''like'', ''in'']"
proof -
  have n: "(PStr ''abc'' :: real pyval) \<noteq> PNone" "(PStr ''30'' :: real pyval) \<noteq> PNone" by simp_all
  have a: "\<not> is_numeric py_plain (PStr ''abc'')"
    by (simp add: is_numeric_def py_plain_def float_plain_words)
  have b: "is_numeric py_plain (PStr ''30'')"
    by (simp add: is_numeric_def py_plain_def float_plain_amounts)
  show ?thesis
    using applicable_filters_by_numeric_class [OF n(1), of py_plain]
      applicable_filters_by_numeric_class [OF n(2), of py_plain] a b by simp
qed

lemma session_post_eq:
  "session_post net req s = (net (posts (trace s)) req, s\<lparr>trace := trace s @ [Post req]\<rparr>)"
  by (simp add: session_post_def emit_def)

lemma backoff_shift:
  "concat (map (\<lambda>i. [Post req, Sleep (of_int (d * 2 ^ i))]) [0..<Suc k])
     = [Post req, Sleep (of_int d)] @ concat (map (\<lambda>i. [Post req, Sleep (of_int (d * 2 * 2 ^ i))]) [0..<k])"
proof -
  have "map (\<lambda>i. [Post req, Sleep (of_int (d * 2 ^ i))]) [0..<Suc k]
          = [Post req, Sleep (of_int d)] # map (\<lambda>i. [Post req, Sleep (of_int (d * 2 * 2 ^ i))]) [0..<k]"
    unfolding map_upt_Suc by (simp add: mult.assoc)
  then show ?thesis by simp
qed

lemma retry_loop_returns:
  assumes "\<forall>i<k. \<exists>e. net (posts (trace s) + i) req = Raises e"
      and "net (posts (trace s) + k) req = Returns r"
      and "a + int k \<le> retries"
  shows "retry_loop net req retries [a..retries] d s =
           (Inr (Some r),
            s\<lparr>trace := trace s @ concat (map (\<lambda>i. [Post req, Sleep (of_int (d * 2 ^ i))]) [0..<k])
                          @ [Post req]\<rparr>)"
  using assms
proof (induction k arbitrary: a d s)
  case 0
  then have "a \<le> retries" by simp
  then have l: "[a..retries] = a # [a + 1..retries]" by (rule upto_rec1)
  show ?case using 0 unfolding l by (simp add: session_post_eq)
next
  case (Suc k)
  then have "a < retries" by simp
  then have l: "[a..retries] = a # [a + 1..retries]" and ne: "a \<noteq> retries"
    by (simp_all add: upto_rec1)
  obtain e where e: "net (posts (trace s)) req = Raises e"
    using Suc.prems(1) by force
  let ?s = "emit (Sleep (of_int d)) (s\<lparr>trace := trace s @ [Post req]\<rparr>)"
  have tr: "trace ?s = trace s @ [Post req, Sleep (of_int d)]" by (simp add: emit_def)
  have p: "posts (trace ?s) = Suc (posts (trace s))" by (simp add: tr posts_def)
  have 1: "\<forall>i<k. \<exists>e. net (posts (trace ?s) + i) req = Raises e"
    using Suc.prems(1) unfolding p by (metis Suc_less_eq add_Suc add_Suc_right)
  have 2: "net (posts (trace ?s) + k) req = Returns r"
    using Suc.prems(2) unfolding p by simp
  have 3: "a + 1 + int k \<le> retries" using Suc.prems(3) by simp
  have "retry_loop net req retries [a..retries] d s = retry_loop net req retries [a + 1..retries] (d * 2) ?s"
    unfolding l using e ne by (simp add: session_post_eq)
  also have "\<dots> = (Inr (Some r),
            ?s\<lparr>trace := trace ?s @ concat (map (\<lambda>i. [Post req, Sleep (of_int (d * 2 * 2 ^ i))]) [0..<k])
                          @ [Post req]\<rparr>)"
    by (rule Suc.IH [OF 1 2 3])
  also have "\<dots> = (Inr (Some r),
            s\<lparr>trace := trace s @ concat (map (\<lambda>i. [Post req, Sleep (of_int (d * 2 ^ i))]) [0..<Suc k])
                          @ [Post req]\<rparr>)"
    unfolding backoff_shift by (simp add: emit_def)
  finally show ?case .
qed

lemma retry_loop_raises:
  assumes "\<forall>i<k. \<exists>e. net (posts (trace s) + i) req = Raises e"
      and "net (posts (trace s) + k) req = Raises e"
      and "a + int k = retries"
  shows "retry_loop net req retries [a..retries] d s =
           (Inl (RequestException e),
            s\<lparr>trace := trace s @ concat (map (\<lambda>i. [Post req, Sleep (of_int (d * 2 ^ i))]) [0..<k])
                          @ [Post req]\<rparr>)"
  using assms
proof (induction k arbitrary: a d s)
  case 0
  then have "a = retries" by simp
  then have l: "[a..retries] = a # [a + 1..retries]" by (simp add: upto_rec1)
  show ?case using 0 unfolding l by (simp add: session_post_eq)
next
  case (Suc k)
  then have "a < retries" by simp
  then have l: "[a..retries] = a # [a + 1..retries]" and ne: "a \<noteq> retries"
    by (simp_all add: upto_rec1)
  obtain e' where e: "net (posts (trace s)) req = Raises e'"
    using Suc.prems(1) by force
  let ?s = "emit (Sleep (of_int d)) (s\<lparr>trace := trace s @ [Post req]\<rparr>)"
  have tr: "trace ?s = trace s @ [Post req, Sleep (of_int d)]" by (simp add: emit_def)
  have p: "posts (trace ?s) = Suc (posts (trace s))" by (simp add: tr posts_def)
  have 1: "\<forall>i<k. \<exists>e. net (posts (trace ?s) + i) req = Raises e"
    using Suc.prems(1) unfolding p by (metis Suc_less_eq add_Suc add_Suc_right)
  have 2: "net (posts (trace ?s) + k) req = Raises e"
    using Suc.prems(2) unfolding p by simp
  have 3: "a + 1 + int k = retries" using Suc.prems(3) by simp
  have "retry_loop net req retries [a..retries] d s = retry_loop net req retries [a + 1..retries] (d * 2) ?s"
    unfolding l using e ne by (simp add: session_post_eq)
  also have "\<dots> = (Inl (RequestException e),
            ?s\<lparr>trace := trace ?s @ concat (map (\<lambda>i. [Post req, Sleep (of_int (d * 2 * 2 ^ i))]) [0..<k])
                          @ [Post req]\<rparr>)"
    by (rule Suc.IH [OF 1 2 3])
  also have "\<dots> = (Inl (RequestException e),
            s\<lparr>trace := trace s @ concat (map (\<lambda>i. [Post req, Sleep (of_int (d * 2 ^ i))]) [0..<Suc k])
                          @ [Post req]\<rparr>)"
    unfolding backoff_shift by (simp add: emit_def)
  finally show ?case .
qed

text \<open>
  Claim C3. With \<open>retries \<ge> 1\<close>: when the first \<open>k < retries\<close> attempts raise a
  \<^verbatim>\<open>RequestException\<close> and the next one returns a response, that response is
  returned, whatever its status, after \<open>k + 1\<close> requests with sleeps of
  \<open>1, 2, 4, \<dots>\<close> between them; when all \<open>retries\<close> attempts raise, the last
  exception is raised to the caller after \<open>retries\<close> requests, with no sleep after the
  last one.
\<close>

theorem post_with_retry_backoff:
  assumes "1 \<le> retries"
  shows "(\<forall>k r. int k < retries
            \<and> (\<forall>i<k. \<exists>e. net (posts (trace s) + i) (form_request u hs d t) = Raises e)
            \<and> net (posts (trace s) + k) (form_request u hs d t) = Returns r
          \<longrightarrow> post_with_retry net u hs d retries t s
              = (Inr (Some r),
                 s\<lparr>trace := trace s
                     @ concat (map (\<lambda>i. [Post (form_request u hs d t), Sleep (2 ^ i)]) [0..<k])
                     @ [Post (form_request u hs d t)]\<rparr>))
       \<and> (\<forall>e. (\<forall>i<nat retries - 1. \<exists>e'. net (posts (trace s) + i) (form_request u hs d t) = Raises e')
            \<and> net (posts (trace s) + (nat retries - 1)) (form_request u hs d t) = Raises e
          \<longrightarrow> post_with_retry net u hs d retries t s
              = (Inl (RequestException e),
                 s\<lparr>trace := trace s
                     @ concat (map (\<lambda>i. [Post (form_request u hs d t), Sleep (2 ^ i)])
                         [0..<nat retries - 1])
                     @ [Post (form_request u hs d t)]\<rparr>))"
proof (intro conjI allI impI)
  fix k r
  assume h: "int k < retries
            \<and> (\<forall>i<k. \<exists>e. net (posts (trace s) + i) (form_request u hs d t) = Raises e)
            \<and> net (posts (trace s) + k) (form_request u hs d t) = Returns r"
  then have 3: "1 + int k \<le> retries" by simp
  show "post_with_retry net u hs d retries t s
              = (Inr (Some r),
                 s\<lparr>trace := trace s
                     @ concat (map (\<lambda>i. [Post (form_request u hs d t), Sleep (2 ^ i)]) [0..<k])
                     @ [Post (form_request u hs d t)]\<rparr>)"
    unfolding post_with_retry_def
    using retry_loop_returns [of k net s "form_request u hs d t" r 1 retries 1] h 3 by simp
next
  fix e
  assume h: "(\<forall>i<nat retries - 1. \<exists>e'. net (posts (trace s) + i) (form_request u hs d t) = Raises e')
            \<and> net (posts (trace s) + (nat retries - 1)) (form_request u hs d t) = Raises e"
  have 3: "1 + int (nat retries - 1) = retries" using assms by simp
  show "post_with_retry net u hs d retries t s
              = (Inl (RequestException e),
                 s\<lparr>trace := trace s
                     @ concat (map (\<lambda>i. [Post (form_request u hs d t), Sleep (2 ^ i)])
                         [0..<nat retries - 1])
                     @ [Post (form_request u hs d t)]\<rparr>)"
    unfolding post_with_retry_def
    using retry_loop_raises [of "nat retries - 1" net s "form_request u hs d t" e 1 retries 1] h 3
    by simp
qed

text \<open>
  The theorem of claim C3 with two attempts: a timeout followed by a response with status
  500, and two failures.
\<close>

theorem post_with_retry_backoff_witness:
  "post_with_retry (net_of [Raises ''timeout'', Returns (json_response 500 (PDict []))])
       ''u'' [] [] 2 30 logged_in
     = (Inr (Some (json_response 500 (PDict []))),
        logged_in\<lparr>trace := [Post (form_request ''u'' [] [] 30), Sleep 1,
                             Post (form_request ''u'' [] [] 30)]\<rparr>)
   \<and> post_with_retry (net_of [Raises ''timeout'', Raises ''reset'']) ''u'' [] [] 2 30 logged_in
     = (Inl (RequestException ''reset''),
        logged_in\<lparr>trace := [Post (form_request ''u'' [] [] 30), Sleep 1,
                             Post (form_request ''u'' [] [] 30)]\<rparr>)"
proof -
  let ?req = "form_request ''u'' [] [] 30 :: real request"
  let ?r = "json_response 500 (PDict []) :: real response"
  let ?n1 = "net_of [Raises ''timeout'', Returns ?r]"
  let ?n2 = "net_of [Raises ''timeout'', Raises ''reset''] :: real network"
  have two: "(1::int) \<le> 2" by simp
  have p0: "posts (trace logged_in) = 0" by (simp add: logged_in_def posts_def)
  have tr: "trace logged_in = []" by (simp add: logged_in_def)
  have h1: "int 1 < 2 \<and> (\<forall>i<1. \<exists>e. ?n1 (posts (trace logged_in) + i) ?req = Raises e)
              \<and> ?n1 (posts (trace logged_in) + 1) ?req = Returns ?r"
    by (simp add: p0 net_of_def)
  have h2: "(\<forall>i<nat 2 - 1. \<exists>e'. ?n2 (posts (trace logged_in) + i) ?req = Raises e')
              \<and> ?n2 (posts (trace logged_in) + (nat 2 - 1)) ?req = Raises ''reset''"
    by (simp add: p0 net_of_def)
  have a: "post_with_retry ?n1 ''u'' [] [] 2 30 logged_in
             = (Inr (Some ?r), logged_in\<lparr>trace := [Post ?req, Sleep 1, Post ?req]\<rparr>)"
    using post_with_retry_backoff [OF two, of ?n1 logged_in "''u''" "[]" "[]" 30,
        THEN conjunct1, rule_format, OF h1]
    by (simp add: tr)
  have b: "post_with_retry ?n2 ''u'' [] [] 2 30 logged_in
             = (Inl (RequestException ''reset''),
                logged_in\<lparr>trace := [Post ?req, Sleep 1, Post ?req]\<rparr>)"
    using post_with_retry_backoff [OF two, of ?n2 logged_in "''u''" "[]" "[]" 30,
        THEN conjunct2, rule_format, OF h2]
    by (simp add: tr)
  show ?thesis using a b by (rule conjI)
qed

lemma login_trace:
  "trace (snd (login net t s)) = trace s @ [Post (login_request (tm_email s) (tm_password s) t)]"
  by (simp add: login_def session_post_def emit_def Let_def
      split: outcome.splits sum.splits option.splits)

lemma login_returns:
  assumes "net (posts (trace s)) (login_request (tm_email s) (tm_password s) t) = Returns res"
  shows "login net t s =
           (let s1 = emit (Post (login_request (tm_email s) (tm_password s) t)) s
            in if \<not> ok res then (Inr PNone, s1)
               else (case token_of_body (safe_json res) of
                       Inl e \<Rightarrow> (Inl e, s1)
                     | Inr token \<Rightarrow>
                         if \<not> truthy token then (Inr PNone, s1)
                         else (case py_len token of
                                 None \<Rightarrow> (Inl TypeError, s1\<lparr>tm_token := token\<rparr>)
                               | Some n \<Rightarrow> (Inr token, s1\<lparr>tm_token := token\<rparr>))))"
  using assms by (simp add: login_def session_post_def Let_def split: sum.splits)

lemma token_of_body_cases:
  "token_of_body (PDict b) =
     (case map_of b ''data'' of
        None \<Rightarrow> Inr PNone
      | Some (PDict d) \<Rightarrow> Inr (case map_of d ''access_token'' of Some tok \<Rightarrow> tok | None \<Rightarrow> PNone)
      | Some v \<Rightarrow> Inl AttributeError)"
  "\<forall>b. body \<noteq> PDict b \<Longrightarrow> token_of_body body = Inr PNone"
  by (auto simp: token_of_body_def split: pyval.splits option.splits)

text \<open>
  What \<^verbatim>\<open>login\<close> does where it does not raise. The login request is answered by a
  response whose body, when it is a JSON object, has a \<^verbatim>\<open>data\<close> member that is an
  object (or none) and an \<^verbatim>\<open>access_token\<close> that is a string or null (or none). Then
  \<^verbatim>\<open>login\<close> returns and stores the token exactly when \<^verbatim>\<open>res.ok\<close> holds
  (the status is not in 400..599) and \<^verbatim>\<open>data.access_token\<close> is a string that is
  not empty; otherwise it returns \<^verbatim>\<open>None\<close> without raising and leaves the token
  slot as it was.
\<close>

theorem login_token_iff:
  fixes s :: "('f::zero) state"
  assumes out: "net (posts (trace s)) (login_request (tm_email s) (tm_password s) t) = Returns res"
      and data: "\<And>b v. safe_json res = PDict b \<Longrightarrow> map_of b ''data'' = Some v \<Longrightarrow> \<exists>d. v = PDict d"
      and tok: "\<And>b d v. safe_json res = PDict b \<Longrightarrow> map_of b ''data'' = Some (PDict d)
                  \<Longrightarrow> map_of d ''access_token'' = Some v \<Longrightarrow> v = PNone \<or> (\<exists>tok. v = PStr tok)"
  shows "(ok res
          \<and> (\<exists>b d tok. safe_json res = PDict b \<and> map_of b ''data'' = Some (PDict d)
                \<and> map_of d ''access_token'' = Some (PStr tok) \<and> tok \<noteq> []
                \<and> login net t s
                    = (Inr (PStr tok),
                       (emit (Post (login_request (tm_email s) (tm_password s) t)) s)
                         \<lparr>tm_token := PStr tok\<rparr>)))
       \<or> (\<not> (ok res
              \<and> (\<exists>b d tok. safe_json res = PDict b \<and> map_of b ''data'' = Some (PDict d)
                    \<and> map_of d ''access_token'' = Some (PStr tok) \<and> tok \<noteq> []))
           \<and> login net t s
               = (Inr PNone, emit (Post (login_request (tm_email s) (tm_password s) t)) s))"
proof -
  note l = login_returns [of net s t res, OF out]
  show ?thesis
  proof (cases "ok res")
    case False
    then show ?thesis using l by (simp add: Let_def)
  next
    case True
    show ?thesis
    proof (cases "\<exists>b. safe_json res = PDict b")
      case False
      then have "token_of_body (safe_json res) = Inr PNone"
        by (intro token_of_body_cases(2)) simp
      then show ?thesis using l True False by (simp add: Let_def)
    next
      case yes: True
      then obtain b where b: "safe_json res = PDict b" by blast
      show ?thesis
      proof (cases "map_of b ''data''")
        case None
        then have "token_of_body (safe_json res) = Inr PNone"
          by (simp add: b token_of_body_cases(1))
        then show ?thesis using l True b None by (simp add: Let_def)
      next
        case (Some v)
        then obtain d where d: "map_of b ''data'' = Some (PDict d)"
          using data [OF b Some] by blast
        show ?thesis
        proof (cases "map_of d ''access_token''")
          case None
          then have "token_of_body (safe_json res) = Inr PNone"
            by (simp add: b d token_of_body_cases(1))
          then show ?thesis using l True b d None by (simp add: Let_def)
        next
          case (Some w)
          then have tb: "token_of_body (safe_json res) = Inr w"
            by (simp add: b d token_of_body_cases(1))
          from tok [OF b d Some] show ?thesis
          proof
            assume "w = PNone"
            then show ?thesis using l True b d Some tb by (simp add: Let_def)
          next
            assume "\<exists>tok. w = PStr tok"
            then obtain tk where tk: "w = PStr tk" by blast
            show ?thesis using l True b d Some tb tk by (cases "tk = []") (simp_all add: Let_def)
          qed
        qed
      qed
    qed
  qed
qed

lemma login_example:
  "login (net_of [Returns (json_response st (token_body ''abc''))]) 10 logged_out
     = (if 400 \<le> st \<and> st < 600
        then (Inr PNone, logged_out\<lparr>trace := [Post (login_request ''user'' ''secret'' 10)]\<rparr>)
        else (Inr (PStr ''abc''),
              logged_out\<lparr>tm_token := PStr ''abc'',
                         trace := [Post (login_request ''user'' ''secret'' 10)]\<rparr>))"
  by (simp add: login_def session_post_def emit_def net_of_def logged_out_def posts_def
      json_response_def ok_def safe_json_def token_of_body_def token_body_def)

text \<open>
  Claim C6 fails on the code. A response with status 300, outside 2xx, that carries a
  token makes \<^verbatim>\<open>login\<close> return that token: the test is \<^verbatim>\<open>if not res.ok\<close>, and
  \<^verbatim>\<open>res.ok\<close> holds for every status below 400. The same test in the \<^verbatim>\<open>login\<close> of
  \<^verbatim>\<open>data_extractor2.py\<close> stands under the comment \<^verbatim>\<open># accept any 2xx\<close>.
\<close>

theorem login_redirect_status_yields_token:
  "status_code (json_response 300 (token_body ''abc'')) = 300
   \<and> fst (login (net_of [Returns (json_response 300 (token_body ''abc''))]) 10 logged_out)
       = Inr (PStr ''abc'')"
  by (simp add: login_example) (simp add: json_response_def)

lemma post_with_retry_once:
  "post_with_retry net u hs d 1 t s =
     (case net (posts (trace s)) (form_request u hs d t) of
        Returns r \<Rightarrow> (Inr (Some r), emit (Post (form_request u hs d t)) s)
      | Raises e \<Rightarrow> (Inl (RequestException e), emit (Post (form_request u hs d t)) s))"
  by (simp add: post_with_retry_def session_post_def split: outcome.splits)

lemma fetch_after_401:
  assumes "get net s = (Inr token, s1)" and "truthy token"
    and "post_with_retry net REPORT_URL (report_headers py token)
           (report_payload grp fld fop fval) 2 t s1 = (Inr (Some res), s2)"
    and "status_code res = 401"
    and "refresh net s2 = (Inr new_token, s3)"
  shows "fetch_field_data net py grp fld fop fval t s =
     (if \<not> truthy new_token then (Inr (Some res), s3)
      else (case net (posts (trace s3))
                  (form_request REPORT_URL
                     (AList.update ''Authorization'' (''Bearer '' @ str py new_token)
                        (report_headers py token))
                     (report_payload grp fld fop fval) t) of
              Returns r \<Rightarrow>
                (Inr (Some r),
                 emit (Post (form_request REPORT_URL
                     (AList.update ''Authorization'' (''Bearer '' @ str py new_token)
                        (report_headers py token))
                     (report_payload grp fld fop fval) t)) s3)
            | Raises e \<Rightarrow>
                (Inr None,
                 emit (Post (form_request REPORT_URL
                     (AList.update ''Authorization'' (''Bearer '' @ str py new_token)
                        (report_headers py token))
                     (report_payload grp fld fop fval) t)) s3)))"
  using assms
  by (simp add: fetch_field_data_def Let_def post_with_retry_once split: outcome.splits)

lemma refresh_trace:
  "trace (snd (refresh net s)) = trace s @ [Post (login_request (tm_email s) (tm_password s) 10)]"
  by (simp add: refresh_def login_trace)

text \<open>
  Claim C2, as the code has it. When the first report response has status 401 and the
  reacquisition returns (a token or \<^verbatim>\<open>None\<close>), exactly one login request was
  sent for it. With no token, the first 401 response is returned and the report request
  is not sent again. With a token, the report request is sent exactly once more, with the
  \<^verbatim>\<open>Authorization\<close> header rebuilt from the new token: the response to it is
  returned whatever its status, a second 401 included, and a transport failure of it
  gives \<^verbatim>\<open>None\<close>.
\<close>

theorem reauthenticate_once_then_retry_once:
  fixes s :: "('f::zero) state"
  assumes "get net s = (Inr token, s1)" and "truthy token"
    and "post_with_retry net REPORT_URL (report_headers py token)
           (report_payload grp fld fop fval) 2 t s1 = (Inr (Some res), s2)"
    and "status_code res = 401"
    and "refresh net s2 = (Inr new_token, s3)"
  shows "trace s3 = trace s2 @ [Post (login_request (tm_email s2) (tm_password s2) 10)]
     \<and> (\<not> truthy new_token \<longrightarrow>
          fetch_field_data net py grp fld fop fval t s = (Inr (Some res), s3))
     \<and> (truthy new_token \<longrightarrow>
          (\<forall>r. net (posts (trace s3))
                  (form_request REPORT_URL
                     (AList.update ''Authorization'' (''Bearer '' @ str py new_token)
                        (report_headers py token))
                     (report_payload grp fld fop fval) t) = Returns r
             \<longrightarrow> fetch_field_data net py grp fld fop fval t s
                 = (Inr (Some r),
                    s3\<lparr>trace := trace s3 @
                      [Post (form_request REPORT_URL
                         (AList.update ''Authorization'' (''Bearer '' @ str py new_token)
                            (report_headers py token))
                         (report_payload grp fld fop fval) t)]\<rparr>))
        \<and> (\<forall>e. net (posts (trace s3))
                  (form_request REPORT_URL
                     (AList.update ''Authorization'' (''Bearer '' @ str py new_token)
                        (report_headers py token))
                     (report_payload grp fld fop fval) t) = Raises e
             \<longrightarrow> fetch_field_data net py grp fld fop fval t s
                 = (Inr None,
                    s3\<lparr>trace := trace s3 @
                      [Post (form_request REPORT_URL
                         (AList.update ''Authorization'' (''Bearer '' @ str py new_token)
                            (report_headers py token))
                         (report_payload grp fld fop fval) t)]\<rparr>)))"
proof -
  have "trace (snd (refresh net s2))
          = trace s2 @ [Post (login_request (tm_email s2) (tm_password s2) 10)]"
    by (rule refresh_trace)
  then have a: "trace s3 = trace s2 @ [Post (login_request (tm_email s2) (tm_password s2) 10)]"
    using assms(5) by simp
  note f = fetch_after_401 [OF assms]
  show ?thesis using a f by (simp add: emit_def)
qed

lemma written_append: "written (xs @ ys) = written xs @ written ys"
  by (induction xs rule: written.induct) simp_all

lemma quiet_refl: "quiet s s"
  by (simp add: quiet_def)

lemma quiet_trans: "quiet s s' \<Longrightarrow> quiet s' s'' \<Longrightarrow> quiet s s''"
  by (auto simp: quiet_def written_append)

lemma quiet_post: "quiet s (emit (Post req) s)"
  by (simp add: quiet_def emit_def)

lemma quiet_sleep: "quiet s (emit (Sleep d) s)"
  by (simp add: quiet_def emit_def)

lemma retry_loop_quiet: "quiet s (snd (retry_loop net req retries attempts d s))"
proof (induction attempts arbitrary: d s)
  case Nil
  show ?case by (simp add: quiet_refl)
next
  case (Cons a attempts)
  have step: "quiet s (emit (Sleep (of_int d)) (emit (Post req) s))"
    by (rule quiet_trans [OF quiet_post quiet_sleep])
  show ?case
    using quiet_trans [OF step Cons.IH [of "emit (Sleep (of_int d)) (emit (Post req) s)" "d * 2"]]
    by (simp add: session_post_def quiet_post split: outcome.splits)
qed

lemma post_with_retry_quiet: "quiet s (snd (post_with_retry net u hs d retries t s))"
  by (simp add: post_with_retry_def retry_loop_quiet)

lemma login_quiet: "quiet s (snd (login net t s))"
  using login_trace [of net t s] by (simp add: quiet_def)

lemma get_quiet: "quiet s (snd (get net s))"
  by (simp add: get_def login_quiet quiet_refl)

lemma refresh_quiet: "quiet s (snd (refresh net s))"
  using login_trace [of net 10 "s\<lparr>tm_token := PNone\<rparr>"] by (simp add: refresh_def quiet_def)

lemma fetch_field_data_quiet:
  "quiet s (snd (fetch_field_data net py grp fld fop fval t s))"
proof -
  obtain r1 s1 where g: "get net s = (r1, s1)" by (cases "get net s")
  have q1: "quiet s s1" using get_quiet [of s net] g by simp
  show ?thesis
  proof (cases r1)
    case (Inl e)
    then show ?thesis using g q1 by (simp add: fetch_field_data_def)
  next
    case (Inr token)
    show ?thesis
    proof (cases "truthy token")
      case False
      then show ?thesis using g Inr q1 by (simp add: fetch_field_data_def)
    next
      case True
      obtain r2 s2 where p: "post_with_retry net REPORT_URL (report_headers py token)
           (report_payload grp fld fop fval) 2 t s1 = (r2, s2)"
        by (cases "post_with_retry net REPORT_URL (report_headers py token)
           (report_payload grp fld fop fval) 2 t s1")
      have q2: "quiet s s2"
        using quiet_trans [OF q1 post_with_retry_quiet [of s1 net REPORT_URL
              "report_headers py token" "report_payload grp fld fop fval" 2 t]] p by simp
      obtain r3 s3 where r: "refresh net s2 = (r3, s3)" by (cases "refresh net s2")
      have q3: "quiet s s3" using quiet_trans [OF q2 refresh_quiet [of s2 net]] r by simp
      have q4: "quiet s s4"
        if "post_with_retry net REPORT_URL hs' (report_payload grp fld fop fval) 1 t s3 = (r4, s4)"
        for hs' r4 s4
        using quiet_trans [OF q3 post_with_retry_quiet [of s3 net REPORT_URL hs'
              "report_payload grp fld fop fval" 1 t]] that by simp
      show ?thesis
        using g Inr True p q2 r q3 q4
        by (auto simp: fetch_field_data_def Let_def
            split: sum.splits option.splits exn.splits prod.splits)
    qed
  qed
qed

lemma quiet_fetchD:
  assumes "fetch_field_data net py grp fld fop fval t s = (r, s')"
  shows "\<exists>es. trace s' = trace s @ es \<and> written es = []"
  using fetch_field_data_quiet [of s net py grp fld fop fval t] assms by (simp add: quiet_def)

lemma apply_filters_written:
  "\<exists>es. trace (snd (apply_filters net py grp fld output_dir delay sample_value comparison_value ops s))
          = trace s @ es
      \<and> set (written es) \<subseteq> (\<lambda>op. [output_dir, grp, fld, op @ ''.json'']) ` set ops"
proof (induction ops arbitrary: s)
  case Nil
  show ?case by simp
next
  case (Cons op ops)
  let ?fv = "if op \<in> set [''greater'', ''less''] \<and> comparison_value \<noteq> PNone
             then comparison_value else sample_value"
  let ?file = "[output_dir, grp, fld, op @ ''.json'']"
  obtain r s2 where f: "fetch_field_data net py grp fld (Some op) ?fv 30 (emit (Sleep delay) s) = (r, s2)"
    by (cases "fetch_field_data net py grp fld (Some op) ?fv 30 (emit (Sleep delay) s)")
  obtain es1 where e1: "trace s2 = trace (emit (Sleep delay) s) @ es1" "written es1 = []"
    using quiet_fetchD [OF f] by blast
  then have t2: "trace s2 = trace s @ Sleep delay # es1" by (simp add: emit_def)
  have next_state: "\<exists>es. trace (snd (apply_filters net py grp fld output_dir delay sample_value
                         comparison_value ops (emit (Write ?file doc) s2))) = trace s @ es
      \<and> set (written es) \<subseteq> (\<lambda>op. [output_dir, grp, fld, op @ ''.json'']) ` set (op # ops)" for doc
  proof -
    obtain es2 where e2: "trace (snd (apply_filters net py grp fld output_dir delay sample_value
                         comparison_value ops (emit (Write ?file doc) s2)))
                       = trace (emit (Write ?file doc) s2) @ es2"
        "set (written es2) \<subseteq> (\<lambda>op. [output_dir, grp, fld, op @ ''.json'']) ` set ops"
      using Cons.IH [of "emit (Write ?file doc) s2"] by blast
    have "trace (snd (apply_filters net py grp fld output_dir delay sample_value
                         comparison_value ops (emit (Write ?file doc) s2)))
            = trace s @ (Sleep delay # es1 @ Write ?file doc # es2)"
      using e2(1) t2 by (simp add: emit_def)
    moreover have "set (written (Sleep delay # es1 @ Write ?file doc # es2))
            \<subseteq> (\<lambda>op. [output_dir, grp, fld, op @ ''.json'']) ` set (op # ops)"
      using e1(2) e2(2) by (auto simp: written_append)
    ultimately show ?thesis by blast
  qed
  show ?case
  proof (cases r)
    case (Inl e)
    have "trace s2 = trace s @ (Sleep delay # es1)" "written (Sleep delay # es1) = []"
      using t2 e1(2) by simp_all
    then show ?thesis using f Inl by (simp add: Let_def)
  next
    case (Inr ro)
    show ?thesis
      using f Inr next_state by (cases ro) (simp_all add: Let_def)
  qed
qed

lemma raw_file_not_filter_file:
  assumes "set ops \<subseteq> set FILTERS"
  shows "[output_dir, grp, fld, ''raw_data.json'']
           \<notin> (\<lambda>op. [output_dir, grp, fld, op @ ''.json'']) ` set ops"
proof
  assume "[output_dir, grp, fld, ''raw_data.json'']
           \<in> (\<lambda>op. [output_dir, grp, fld, op @ ''.json'']) ` set ops"
  then obtain op where "op \<in> set ops" "''raw_data.json'' = op @ ''.json''" by auto
  then have "op \<in> set FILTERS" "op = ''raw_data''" using assms by auto
  then show False by (simp add: FILTERS_def)
qed

lemma applicable_subset: "set (get_applicable_filters py v) \<subseteq> set FILTERS"
  by (auto simp: get_applicable_filters_def)

lemma process_field_after_fetch:
  assumes "fetch_field_data net py grp fld None PNone 30
             (emit (Sleep delay) (emit (MakeDirs [output_dir, grp, fld]) s)) = (Inr (Some res), s2)"
  shows "\<exists>es. trace (snd (process_field net py grp fld output_dir delay s))
           = trace s2 @
             Write [output_dir, grp, fld, ''raw_data.json'']
               (PDict [(''group'', PStr grp), (''field'', PStr fld),
                       (''status_code'', PInt (status_code res)), (''filter'', PNone),
                       (''response'', safe_json res)]) # es
         \<and> [output_dir, grp, fld, ''raw_data.json''] \<notin> set (written es)"
proof -
  let ?raw = "[(''group'', PStr grp), (''field'', PStr fld),
               (''status_code'', PInt (status_code res)), (''filter'', PNone),
               (''response'', safe_json res)]"
  let ?w = "Write [output_dir, grp, fld, ''raw_data.json''] (PDict ?raw)"
  let ?sv = "extract_sample_value py ?raw grp fld False"
  let ?cv = "extract_sample_value py ?raw grp fld True"
  show ?thesis
  proof (cases "?sv = PNone")
    case True
    then have "process_field net py grp fld output_dir delay s = (Inr (), emit ?w s2)"
      using assms by (simp add: process_field_def Let_def)
    then show ?thesis by (simp add: emit_def)
  next
    case False
    then have p: "process_field net py grp fld output_dir delay s
        = apply_filters net py grp fld output_dir delay ?sv ?cv
            (get_applicable_filters py ?sv) (emit ?w s2)"
      using assms by (simp add: process_field_def Let_def)
    obtain es where es: "trace (snd (apply_filters net py grp fld output_dir delay ?sv ?cv
            (get_applicable_filters py ?sv) (emit ?w s2))) = trace (emit ?w s2) @ es"
        "set (written es) \<subseteq> (\<lambda>op. [output_dir, grp, fld, op @ ''.json''])
                                ` set (get_applicable_filters py ?sv)"
      using apply_filters_written [of net py grp fld output_dir delay ?sv ?cv
          "get_applicable_filters py ?sv" "emit ?w s2"] by blast
    have "[output_dir, grp, fld, ''raw_data.json''] \<notin> set (written es)"
      using es(2) raw_file_not_filter_file [OF applicable_subset [of py ?sv]] by blast
    then show ?thesis using es(1) p by (simp add: emit_def)
  qed
qed

lemma started_simps:
  "tm_token started = PStr ''t0''" "tm_email started = ''user''" "tm_password started = ''secret''"
  "trace started = [MakeDirs [''results'', ''payment'', ''amount''], Sleep 2]"
  "posts (trace started) = 0"
  by (simp_all add: started_def logged_in_def emit_def posts_def)

lemma get_started: "get net started = (Inr (PStr ''t0''), started)"
  by (simp add: get_def started_simps)

lemma first_post_started:
  assumes "net 0 (amount_request ''t0'') = Returns r"
  shows "post_with_retry net REPORT_URL (report_headers py_plain (PStr ''t0''))
           (report_payload ''payment'' ''amount'' None PNone) 2 30 started
         = (Inr (Some r), emit (Post (amount_request ''t0'')) started)"
proof -
  have l: "[1..2::int] = 1 # [2..2]" by (simp add: upto_rec1)
  show ?thesis
    using assms
    by (simp add: post_with_retry_def l session_post_def started_simps amount_request_def posts_def)
qed

lemma after_first_post_simps:
  "tm_email (after_first_post\<lparr>tm_token := PNone\<rparr>) = ''user''"
  "tm_password (after_first_post\<lparr>tm_token := PNone\<rparr>) = ''secret''"
  "tm_email after_first_post = ''user''"
  "tm_password after_first_post = ''secret''"
  "posts (trace (after_first_post\<lparr>tm_token := PNone\<rparr>)) = 1"
  "trace after_first_post
     = [MakeDirs [''results'', ''payment'', ''amount''], Sleep 2, Post (amount_request ''t0'')]"
  by (simp_all add: after_first_post_def emit_def started_simps posts_def)

lemma first_post_example:
  assumes "net 0 (amount_request ''t0'') = Returns r"
  shows "post_with_retry net REPORT_URL (report_headers py_plain (PStr ''t0''))
           (report_payload ''payment'' ''amount'' None PNone) 2 30 started
         = (Inr (Some r), after_first_post)"
  unfolding after_first_post_def using assms by (rule first_post_started)

lemma status_examples:
  "status_code unauthorized = 401" "\<not> ok forbidden" "status_code blank_rows = 200"
  "safe_json blank_rows
     = PDict [(''data'', PList [PDict [(''amount'', PStr [])], PDict [(''amount'', PNone)]])]"
  "safe_json unauthorized = PDict [(''message'', PStr ''Unauthenticated.'')]"
  by (simp_all add: unauthorized_def forbidden_def blank_rows_def json_response_def ok_def
      safe_json_def)

lemma refresh_refused:
  "refresh relogin_refused after_first_post = (Inr PNone, after_relogin)"
  by (simp add: refresh_def login_def session_post_def after_first_post_simps posts_def
      relogin_refused_def net_of_def status_examples after_relogin_def)

lemma refresh_granted:
  "refresh relogin_granted after_first_post
     = (Inr (PStr ''t1''), after_relogin\<lparr>tm_token := PStr ''t1''\<rparr>)"
  by (simp add: refresh_def login_def session_post_def after_first_post_simps posts_def
      relogin_granted_def net_of_def after_relogin_def json_response_def ok_def safe_json_def
      token_of_body_def token_body_def)

lemma refresh_malformed:
  "refresh relogin_malformed after_first_post = (Inl AttributeError, after_relogin)"
  by (simp add: refresh_def login_def session_post_def after_first_post_simps posts_def
      relogin_malformed_def net_of_def after_relogin_def json_response_def ok_def safe_json_def
      token_of_body_def)

lemma first_outcome:
  "relogin_refused 0 req = Returns unauthorized"
  "relogin_granted 0 req = Returns unauthorized"
  "relogin_malformed 0 req = Returns unauthorized"
  "net_of [Returns blank_rows] 0 req = Returns blank_rows"
  by (simp_all add: relogin_refused_def relogin_granted_def relogin_malformed_def net_of_def)

lemma fetch_without_401:
  assumes "get net s = (Inr token, s1)" and "truthy token"
    and "post_with_retry net REPORT_URL (report_headers py token)
           (report_payload grp fld fop fval) 2 t s1 = (Inr (Some res), s2)"
    and "status_code res \<noteq> 401"
  shows "fetch_field_data net py grp fld fop fval t s = (Inr (Some res), s2)"
  using assms by (simp add: fetch_field_data_def Let_def)

lemma fetch_relogin_raises:
  assumes "get net s = (Inr token, s1)" and "truthy token"
    and "post_with_retry net REPORT_URL (report_headers py token)
           (report_payload grp fld fop fval) 2 t s1 = (Inr (Some res), s2)"
    and "status_code res = 401"
    and "refresh net s2 = (Inl e, s3)"
  shows "fetch_field_data net py grp fld fop fval t s = (Inl e, s3)"
  using assms by (simp add: fetch_field_data_def Let_def)

text \<open>
  When the first report response of the raw fetch is a 401 and the login that follows
  returns without a token, \<^verbatim>\<open>fetch_field_data\<close> returns that 401 response, and
  \<^verbatim>\<open>process_field\<close> writes it to \<^verbatim>\<open>raw_data.json\<close> with
  \<^verbatim>\<open>status_code\<close> 401 as the next event.
\<close>

theorem relogin_failure_returns_first_401:
  fixes s :: "('f::{linorder,zero}) state"
  assumes "get net (emit (Sleep delay) (emit (MakeDirs [output_dir, grp, fld]) s)) = (Inr token, s1)"
    and "truthy token"
    and "post_with_retry net REPORT_URL (report_headers py token)
           (report_payload grp fld None PNone) 2 30 s1 = (Inr (Some res), s2)"
    and "status_code res = 401"
    and "refresh net s2 = (Inr new_token, s3)"
    and "\<not> truthy new_token"
  shows "fetch_field_data net py grp fld None PNone 30
            (emit (Sleep delay) (emit (MakeDirs [output_dir, grp, fld]) s))
          = (Inr (Some res), s3)
       \<and> (\<exists>es. trace (snd (process_field net py grp fld output_dir delay s))
                = trace s3 @
                  Write [output_dir, grp, fld, ''raw_data.json'']
                     (PDict [(''group'', PStr grp), (''field'', PStr fld),
                             (''status_code'', PInt 401), (''filter'', PNone),
                             (''response'', safe_json res)]) # es)"
proof -
  have f: "fetch_field_data net py grp fld None PNone 30
            (emit (Sleep delay) (emit (MakeDirs [output_dir, grp, fld]) s))
          = (Inr (Some res), s3)"
    using fetch_after_401 [OF assms(1-5)] assms(6) by simp
  show ?thesis
    using f process_field_after_fetch [OF f] assms(4) by auto
qed

text \<open>
  Claim C7. When the raw fetch returns a response and the extraction with
  \<^verbatim>\<open>for_comparison=False\<close> returns \<^verbatim>\<open>None\<close>, \<^verbatim>\<open>process_field\<close>
  returns normally right after writing the raw artifact: the only file it writes is
  \<^verbatim>\<open>raw_data.json\<close>.
\<close>

theorem absent_sample_skips_filters:
  fixes s :: "('f::{linorder,zero}) state"
  assumes "fetch_field_data net py grp fld None PNone 30
             (emit (Sleep delay) (emit (MakeDirs [output_dir, grp, fld]) s)) = (Inr (Some res), s2)"
    and "extract_sample_value py
           [(''group'', PStr grp), (''field'', PStr fld),
            (''status_code'', PInt (status_code res)), (''filter'', PNone),
            (''response'', safe_json res)] grp fld False = PNone"
  shows "process_field net py grp fld output_dir delay s
           = (Inr (),
              s2\<lparr>trace := trace s2 @
                 [Write [output_dir, grp, fld, ''raw_data.json'']
                    (PDict [(''group'', PStr grp), (''field'', PStr fld),
                            (''status_code'', PInt (status_code res)), (''filter'', PNone),
                            (''response'', safe_json res)])]\<rparr>)
       \<and> written (trace (snd (process_field net py grp fld output_dir delay s)))
           = written (trace s) @ [[output_dir, grp, fld, ''raw_data.json'']]"
proof -
  have p: "process_field net py grp fld output_dir delay s
           = (Inr (),
              s2\<lparr>trace := trace s2 @
                 [Write [output_dir, grp, fld, ''raw_data.json'']
                    (PDict [(''group'', PStr grp), (''field'', PStr fld),
                            (''status_code'', PInt (status_code res)), (''filter'', PNone),
                            (''response'', safe_json res)])]\<rparr>)"
    using assms by (simp add: process_field_def Let_def emit_def)
  obtain es where es: "trace s2
        = trace (emit (Sleep delay) (emit (MakeDirs [output_dir, grp, fld]) s)) @ es"
      "written es = []"
    using quiet_fetchD [OF assms(1)] by blast
  have "written (trace s2) = written (trace s)"
    using es by (simp add: emit_def written_append)
  then show ?thesis unfolding p by (simp add: written_append)
qed

lemma fetch_refused:
  "fetch_field_data relogin_refused py_plain ''payment'' ''amount'' None PNone 30 started
     = (Inr (Some unauthorized), after_relogin)"
  using fetch_after_401 [OF get_started _ first_post_example [of relogin_refused unauthorized, OF first_outcome(1)]
      status_examples(1) refresh_refused]
  by simp

text \<open>
  Claim C2 as stated fails: the first response is a 401, the login that follows is
  answered with status 403, and the report request is not retried: the requests sent are
  the first report request and the login request.
\<close>

theorem relogin_refused_no_retry:
  "fst (fetch_field_data relogin_refused py_plain ''payment'' ''amount'' None PNone 30 started)
     = Inr (Some unauthorized)
   \<and> trace (snd (fetch_field_data relogin_refused py_plain ''payment'' ''amount'' None PNone 30
                   started))
     = [MakeDirs [''results'', ''payment'', ''amount''], Sleep 2, Post (amount_request ''t0''),
        Post (login_request ''user'' ''secret'' 10)]"
  by (simp add: fetch_refused after_relogin_def emit_def after_first_post_simps)

text \<open>That theorem where the login is answered with status 403.\<close>

theorem relogin_failure_returns_first_401_witness:
  "fetch_field_data relogin_refused py_plain ''payment'' ''amount'' None PNone 30 started
     = (Inr (Some unauthorized), after_relogin)
   \<and> (\<exists>es. trace (snd (process_field relogin_refused py_plain ''payment'' ''amount''
                         ''results'' 2 logged_in))
            = trace after_relogin @
              Write [''results'', ''payment'', ''amount'', ''raw_data.json'']
                (PDict [(''group'', PStr ''payment''), (''field'', PStr ''amount''),
                        (''status_code'', PInt 401), (''filter'', PNone),
                        (''response'', safe_json unauthorized)]) # es)"
proof -
  have g: "get relogin_refused
             (emit (Sleep 2) (emit (MakeDirs [''results'', ''payment'', ''amount'']) logged_in))
           = (Inr (PStr ''t0''), started)"
    using get_started [of relogin_refused] by (simp add: started_def)
  have t: "truthy (PStr ''t0'' :: real pyval)" by simp
  have n: "\<not> truthy (PNone :: real pyval)" by simp
  show ?thesis
    using relogin_failure_returns_first_401 [OF g t first_post_example [of relogin_refused unauthorized, OF first_outcome(1)]
        status_examples(1) refresh_refused n]
    by (simp add: started_def)
qed

text \<open>
  The theorem of claim C2 where the login yields the token \<^verbatim>\<open>"t1"\<close> and the
  retried request is answered with a second 401: that response is returned.
\<close>

theorem reauthenticate_once_then_retry_once_witness:
  "fetch_field_data relogin_granted py_plain ''payment'' ''amount'' None PNone 30 started
     = (Inr (Some unauthorized),
        after_relogin
          \<lparr>tm_token := PStr ''t1'',
           trace := trace after_relogin @
             [Post (form_request REPORT_URL
                (AList.update ''Authorization'' (''Bearer '' @ str py_plain (PStr ''t1''))
                   (report_headers py_plain (PStr ''t0'')))
                (report_payload ''payment'' ''amount'' None PNone) 30)]\<rparr>)"
proof -
  let ?s3 = "after_relogin\<lparr>tm_token := PStr ''t1''\<rparr>"
  let ?req = "form_request REPORT_URL
                (AList.update ''Authorization'' (''Bearer '' @ str py_plain (PStr ''t1''))
                   (report_headers py_plain (PStr ''t0'')))
                (report_payload ''payment'' ''amount'' None PNone) 30 :: real request"
  have t: "truthy (PStr ''t0'' :: real pyval)" "truthy (PStr ''t1'' :: real pyval)" by simp_all
  have p: "posts (trace ?s3) = 2"
    by (simp add: after_relogin_def emit_def after_first_post_simps posts_def)
  have o: "relogin_granted (posts (trace ?s3)) ?req = Returns unauthorized"
    unfolding p by (simp add: relogin_granted_def net_of_def)
  note th = reauthenticate_once_then_retry_once [OF get_started t(1)
      first_post_example [of relogin_granted unauthorized, OF first_outcome(2)] status_examples(1) refresh_granted]
  have "fetch_field_data relogin_granted py_plain ''payment'' ''amount'' None PNone 30 started
          = (Inr (Some unauthorized), ?s3\<lparr>trace := trace ?s3 @ [Post ?req]\<rparr>)"
    using th [THEN conjunct2, THEN conjunct2, rule_format, OF t(2), THEN conjunct1, rule_format, OF o] .
  then show ?thesis by simp
qed

lemma fetch_malformed:
  "fetch_field_data relogin_malformed py_plain ''payment'' ''amount'' None PNone 30 started
     = (Inl AttributeError, after_relogin)"
  using fetch_relogin_raises [OF get_started _ first_post_example [of relogin_malformed unauthorized, OF first_outcome(3)]
      status_examples(1) refresh_malformed]
  by simp

text \<open>
  Claim C8 fails on the code. The raw fetch is answered with a 401, and the login that
  follows with status 200 and the body \<^verbatim>\<open>{"data": []}\<close>. In
  \<^verbatim>\<open>login\<close>, \<^verbatim>\<open>body.get("data", {}).get("access_token")\<close> raises
  \<^verbatim>\<open>AttributeError\<close>, which leaves \<^verbatim>\<open>fetch_field_data\<close> and
  \<^verbatim>\<open>process_field\<close>: no file has been written for the field.
\<close>

theorem malformed_relogin_body_no_raw_artifact:
  "process_field relogin_malformed py_plain ''payment'' ''amount'' ''results'' 2 logged_in
     = (Inl AttributeError, after_relogin)
   \<and> trace after_relogin
       = [MakeDirs [''results'', ''payment'', ''amount''], Sleep 2, Post (amount_request ''t0''),
          Post (login_request ''user'' ''secret'' 10)]
   \<and> written (trace after_relogin) = []"
proof -
  have s: "emit (Sleep 2) (emit (MakeDirs [''results'', ''payment'', ''amount'']) logged_in) = started"
    by (simp add: started_def)
  have a: "process_field relogin_malformed py_plain ''payment'' ''amount'' ''results'' 2 logged_in
     = (Inl AttributeError, after_relogin)"
    by (simp add: process_field_def Let_def s fetch_malformed)
  have b: "trace after_relogin
       = [MakeDirs [''results'', ''payment'', ''amount''], Sleep 2, Post (amount_request ''t0''),
          Post (login_request ''user'' ''secret'' 10)]"
    by (simp add: after_relogin_def emit_def after_first_post_simps)
  show ?thesis using a b by simp
qed

text \<open>
  Claim C10 fails on the code, by the defect that claim C8 fails by. The first report
  response is a 401, and the login that follows yields no token: it is answered with
  status 200 and the body \<^verbatim>\<open>{"data": []}\<close>, and \<^verbatim>\<open>login\<close> raises
  \<^verbatim>\<open>AttributeError\<close>. \<^verbatim>\<open>fetch_field_data\<close> does not return the 401 response: the
  exception leaves it, after the report request and the login request.
\<close>

theorem malformed_relogin_body_first_401_not_returned:
  "relogin_malformed 0 (amount_request ''t0'') = Returns unauthorized
   \<and> status_code unauthorized = 401
   \<and> relogin_malformed 1 (login_request ''user'' ''secret'' 10)
       = Returns (json_response 200 (PDict [(''data'', PList [])]))
   \<and> fetch_field_data relogin_malformed py_plain ''payment'' ''amount'' None PNone 30 started
       = (Inl AttributeError, after_relogin)
   \<and> fst (fetch_field_data relogin_malformed py_plain ''payment'' ''amount'' None PNone 30 started)
       \<noteq> Inr (Some unauthorized)
   \<and> posts (trace after_relogin) = 2"
proof (intro conjI)
  show "relogin_malformed 0 (amount_request ''t0'') = Returns unauthorized"
    by (rule first_outcome(3))
  show "status_code unauthorized = 401" by (rule status_examples(1))
  show "relogin_malformed 1 (login_request ''user'' ''secret'' 10)
          = Returns (json_response 200 (PDict [(''data'', PList [])]))"
    by (simp add: relogin_malformed_def net_of_def)
  show "fetch_field_data relogin_malformed py_plain ''payment'' ''amount'' None PNone 30 started
          = (Inl AttributeError, after_relogin)"
    by (rule fetch_malformed)
  show "fst (fetch_field_data relogin_malformed py_plain ''payment'' ''amount'' None PNone 30 started)
          \<noteq> Inr (Some unauthorized)"
    by (simp add: fetch_malformed)
  show "posts (trace after_relogin) = 2"
    by (simp add: after_relogin_def emit_def after_first_post_simps posts_def)
qed

lemma extract_blank_rows:
  "extract_sample_value py_plain
     [(''group'', PStr ''payment''), (''field'', PStr ''amount''),
      (''status_code'', PInt (status_code blank_rows)), (''filter'', PNone),
      (''response'', safe_json blank_rows)] ''payment'' ''amount'' False = PNone"
  by (simp add: extract_sample_value_def status_examples sample_of_rows_def row_value_def
      possible_keys_def nonblank_def strip_def)

text \<open>
  The theorem of claim C7 at a response with status 200 whose rows hold an empty string
  and a null for the field.
\<close>

theorem absent_sample_skips_filters_witness:
  "process_field (net_of [Returns blank_rows]) py_plain ''payment'' ''amount'' ''results'' 2 logged_in
     = (Inr (),
        after_first_post\<lparr>trace := trace after_first_post @
           [Write [''results'', ''payment'', ''amount'', ''raw_data.json'']
              (PDict [(''group'', PStr ''payment''), (''field'', PStr ''amount''),
                      (''status_code'', PInt (status_code blank_rows)), (''filter'', PNone),
                      (''response'', safe_json blank_rows)])]\<rparr>)
   \<and> written (trace (snd (process_field (net_of [Returns blank_rows]) py_plain ''payment''
                            ''amount'' ''results'' 2 logged_in)))
       = written (trace logged_in) @ [[''results'', ''payment'', ''amount'', ''raw_data.json'']]"
proof -
  have t: "truthy (PStr ''t0'' :: real pyval)" by simp
  have n: "status_code blank_rows \<noteq> 401" by (simp add: status_examples)
  have f: "fetch_field_data (net_of [Returns blank_rows]) py_plain ''payment'' ''amount'' None PNone 30
             (emit (Sleep 2) (emit (MakeDirs [''results'', ''payment'', ''amount'']) logged_in))
           = (Inr (Some blank_rows), after_first_post)"
    using fetch_without_401 [OF get_started t first_post_example [of "net_of [Returns blank_rows]" blank_rows, OF first_outcome(4)] n]
    by (simp add: started_def)
  show ?thesis by (rule absent_sample_skips_filters [OF f extract_blank_rows])
qed

text \<open>
  The theorem on what \<^verbatim>\<open>login\<close> does, at a response with status 200 and the token
  \<^verbatim>\<open>"abc"\<close>.
\<close>

theorem login_token_iff_witness:
  "login (net_of [Returns (json_response 200 (token_body ''abc''))]) 10 logged_out
     = (Inr (PStr ''abc''),
        (emit (Post (login_request (tm_email logged_out) (tm_password logged_out) 10)) logged_out)
          \<lparr>tm_token := PStr ''abc''\<rparr>)"
proof -
  let ?res = "json_response 200 (token_body ''abc'') :: real response"
  let ?net = "net_of [Returns ?res]"
  have sj: "safe_json ?res = PDict [(''data'', PDict [(''access_token'', PStr ''abc'')])]"
    by (simp add: json_response_def safe_json_def token_body_def)
  have o: "?net (posts (trace logged_out))
             (login_request (tm_email logged_out) (tm_password logged_out) 10) = Returns ?res"
    by (simp add: net_of_def logged_out_def posts_def)
  have d: "\<And>b v. safe_json ?res = PDict b \<Longrightarrow> map_of b ''data'' = Some v \<Longrightarrow> \<exists>d. v = PDict d"
    unfolding sj by auto
  have k: "\<And>b d v. safe_json ?res = PDict b \<Longrightarrow> map_of b ''data'' = Some (PDict d)
             \<Longrightarrow> map_of d ''access_token'' = Some v \<Longrightarrow> v = PNone \<or> (\<exists>tok. v = PStr tok)"
    unfolding sj by auto
  have y: "ok ?res \<and> (\<exists>b d tok. safe_json ?res = PDict b \<and> map_of b ''data'' = Some (PDict d)
                \<and> map_of d ''access_token'' = Some (PStr tok) \<and> tok \<noteq> [])"
    unfolding sj by (simp add: ok_def json_response_def)
  show ?thesis
    using login_token_iff [of ?net logged_out 10 ?res, OF o d k] y
    unfolding sj by auto
qed

text \<open>
  Whenever the raw fetch returns, with a response or with \<^verbatim>\<open>None\<close>,
  \<^verbatim>\<open>process_field\<close> writes \<^verbatim>\<open>raw_data.json\<close> exactly once, whatever the
  filter phase does afterwards.
\<close>

theorem one_raw_artifact_when_fetch_returns:
  fixes s :: "('f::{linorder,zero}) state"
  assumes "fetch_field_data net py grp fld None PNone 30
             (emit (Sleep delay) (emit (MakeDirs [output_dir, grp, fld]) s)) = (Inr r, s2)"
  shows "\<exists>es. trace (snd (process_field net py grp fld output_dir delay s)) = trace s @ es
           \<and> count_list (written es) [output_dir, grp, fld, ''raw_data.json''] = 1"
proof -
  let ?raw = "[output_dir, grp, fld, ''raw_data.json'']"
  obtain es1 where es1: "trace s2
        = trace (emit (Sleep delay) (emit (MakeDirs [output_dir, grp, fld]) s)) @ es1"
      "written es1 = []"
    using quiet_fetchD [OF assms] by blast
  then have t2: "trace s2 = trace s @ (MakeDirs [output_dir, grp, fld] # Sleep delay # es1)"
    by (simp add: emit_def)
  show ?thesis
  proof (cases r)
    case None
    then have "process_field net py grp fld output_dir delay s
        = (Inr (), emit (Write ?raw (PDict [(''group'', PStr grp), (''field'', PStr fld),
                        (''error'', PStr ''network_failed''), (''filter'', PNone)])) s2)"
      using assms by (simp add: process_field_def Let_def)
    then have "trace (snd (process_field net py grp fld output_dir delay s))
        = trace s @ (MakeDirs [output_dir, grp, fld] # Sleep delay # es1
            @ [Write ?raw (PDict [(''group'', PStr grp), (''field'', PStr fld),
                        (''error'', PStr ''network_failed''), (''filter'', PNone)])])"
      using t2 by (simp add: emit_def)
    moreover have "count_list (written (MakeDirs [output_dir, grp, fld] # Sleep delay # es1
            @ [Write ?raw (PDict [(''group'', PStr grp), (''field'', PStr fld),
                        (''error'', PStr ''network_failed''), (''filter'', PNone)])])) ?raw = 1"
      using es1(2) by (simp add: written_append)
    ultimately show ?thesis by blast
  next
    case (Some res)
    then have f: "fetch_field_data net py grp fld None PNone 30
             (emit (Sleep delay) (emit (MakeDirs [output_dir, grp, fld]) s)) = (Inr (Some res), s2)"
      using assms by simp
    obtain es where es: "trace (snd (process_field net py grp fld output_dir delay s))
           = trace s2 @
             Write ?raw
               (PDict [(''group'', PStr grp), (''field'', PStr fld),
                       (''status_code'', PInt (status_code res)), (''filter'', PNone),
                       (''response'', safe_json res)]) # es"
        "?raw \<notin> set (written es)"
      using process_field_after_fetch [OF f] by blast
    have c: "count_list (written es) ?raw = 0" using es(2) by (simp add: count_list_0_iff)
    have "trace (snd (process_field net py grp fld output_dir delay s))
           = trace s @ (MakeDirs [output_dir, grp, fld] # Sleep delay # es1 @
             Write ?raw
               (PDict [(''group'', PStr grp), (''field'', PStr fld),
                       (''status_code'', PInt (status_code res)), (''filter'', PNone),
                       (''response'', safe_json res)]) # es)"
      using es(1) t2 by simp
    moreover have "count_list (written (MakeDirs [output_dir, grp, fld] # Sleep delay # es1 @
             Write ?raw
               (PDict [(''group'', PStr grp), (''field'', PStr fld),
                       (''status_code'', PInt (status_code res)), (''filter'', PNone),
                       (''response'', safe_json res)]) # es)) ?raw = 1"
      using es1(2) c by (simp add: written_append)
    ultimately show ?thesis by blast
  qed
qed

text \<open>That theorem at a response with status 200 and blank rows.\<close>

theorem one_raw_artifact_when_fetch_returns_witness:
  "\<exists>es. trace (snd (process_field (net_of [Returns blank_rows]) py_plain ''payment'' ''amount''
                       ''results'' 2 logged_in)) = trace logged_in @ es
      \<and> count_list (written es) [''results'', ''payment'', ''amount'', ''raw_data.json''] = 1"
proof -
  have t: "truthy (PStr ''t0'' :: real pyval)" by simp
  have n: "status_code blank_rows \<noteq> 401" by (simp add: status_examples)
  have f: "fetch_field_data (net_of [Returns blank_rows]) py_plain ''payment'' ''amount'' None PNone 30
             (emit (Sleep 2) (emit (MakeDirs [''results'', ''payment'', ''amount'']) logged_in))
           = (Inr (Some blank_rows), after_first_post)"
    using fetch_without_401 [OF get_started t
        first_post_example [of "net_of [Returns blank_rows]" blank_rows, OF first_outcome(4)] n]
    by (simp add: started_def)
  show ?thesis by (rule one_raw_artifact_when_fetch_returns [OF f])
qed

end
